theory Spec2Isabelle
  imports Complex_Main
begin

section \<open>Errors\<close>

text \<open>
  Every exception that the modelled functions raise or catch is a value of this type.
  \<open>InsufficientChannels c\<close> is the message "Audio must have at least 3 channels. Got c
  channels", \<open>InvalidTDOAData\<close> the message "Invalid TDOA data". \<open>LibraryFailure\<close> stands
  for an exception raised inside a library call (scipy, numpy, torch).
  \<open>FeatureExtractionFailed\<close> and \<open>PredictionFailed\<close> are the wrapping exceptions of
  \<open>extract_features\<close> and \<open>predict\<close>.
\<close>

datatype error =
    InsufficientChannels nat
  | InvalidTDOAData
  | ValueError
  | IndexError
  | ZeroDivisionError
  | ModelNotLoaded
  | LibraryFailure
  | FeatureExtractionFailed error
  | PredictionFailed error

section \<open>The classifier interface: \<open>ModelLoader.predict\<close>\<close>

text \<open>
  The dictionary returned by \<open>predict\<close>. Probabilities are real numbers: rounding of
  the 32-bit softmax is not modelled.
\<close>

record detection_result =
  is_drone :: bool
  confidence :: real
  prob_non_drone :: real
  prob_drone :: real
  predicted_class :: nat
  raw_drone_probability :: real
  threshold_used :: real

text \<open>\<open>torch.softmax(outputs, dim=1)\<close> on the two logits of one batch row.\<close>

definition softmax2 :: "real \<times> real \<Rightarrow> real \<times> real" where
  "softmax2 outputs =
     (let e0 = exp (fst outputs); e1 = exp (snd outputs)
      in (e0 / (e0 + e1), e1 / (e0 + e1)))"

text \<open>
  The network is a parameter: \<open>None\<close> is \<open>self.model is None\<close>, and a network maps a
  feature tensor to its two logits or raises. \<open>torch.max\<close> returns the larger
  probability and the index of its first occurrence.
\<close>

definition predict ::
  "('f \<Rightarrow> error + real \<times> real) option \<Rightarrow> 'f \<Rightarrow> real \<Rightarrow> error + detection_result" where
  "predict model features threshold =
     (case model of
        None \<Rightarrow> Inl ModelNotLoaded
      | Some net \<Rightarrow>
          (case net features of
             Inl e \<Rightarrow> Inl (PredictionFailed e)
           | Inr outputs \<Rightarrow>
               (let probabilities = softmax2 outputs;
                    p0 = fst probabilities;
                    p1 = snd probabilities
                in Inr \<lparr> is_drone = (p1 \<ge> threshold),
                          confidence = max p0 p1,
                          prob_non_drone = p0,
                          prob_drone = p1,
                          predicted_class = (if p0 \<ge> p1 then 0 else 1),
                          raw_drone_probability = p1,
                          threshold_used = threshold \<rparr>)))"

section \<open>The segment scanner: \<open>analyze_long_audio\<close>\<close>

record segment_info =
  start_time :: real
  end_time :: real
  seg_confidence :: real
  seg_is_drone :: bool
  seg_probability :: real

record detection_summary =
  total_segments :: nat
  detected_segments :: nat
  max_confidence :: real

record long_audio_result =
  detected :: bool
  overall_confidence :: real
  best_segment :: "segment_info option"
  segments :: "segment_info list"
  summary :: detection_summary

text \<open>The three loop variables \<open>segments\<close>, \<open>max_confidence\<close> and \<open>best_segment\<close>.\<close>

record scan_state =
  st_segments :: "segment_info list"
  st_max_confidence :: real
  st_best_segment :: "segment_info option"

text \<open>
  Python's \<open>range(0, stop, step)\<close> for a positive step: the multiples of \<open>step\<close> that are
  strictly below \<open>stop\<close>. The stop value itself is never produced.
\<close>

definition py_range0 :: "int \<Rightarrow> nat \<Rightarrow> nat list" where
  "py_range0 stop step = map (\<lambda>k. k * step) [0..<nat ((stop + int step - 1) div int step)]"

text \<open>The slice \<open>xs[a:b]\<close> for \<open>0 \<le> a \<le> b\<close>; Python clips it to the list.\<close>

definition slice :: "'a list \<Rightarrow> nat \<Rightarrow> nat \<Rightarrow> 'a list" where
  "slice xs a b = take (b - a) (drop a xs)"

text \<open>
  One pass through the body of the \<open>for start_sample in range(...)\<close> loop, up to the
  dictionary \<open>segment_info\<close>. The feature extractor and the classifier are the
  module-level objects \<open>audio_processor\<close> and \<open>model_loader\<close>; here they are the
  parameters \<open>extract\<close> and \<open>classify\<close>. The classifier is only called when the
  extraction returned.
\<close>

definition analyze_segment ::
  "('s list \<Rightarrow> nat \<Rightarrow> error + 'f) \<Rightarrow> ('f \<Rightarrow> real \<Rightarrow> error + detection_result) \<Rightarrow>
   's list \<Rightarrow> nat \<Rightarrow> real \<Rightarrow> nat \<Rightarrow> nat \<Rightarrow> error + segment_info" where
  "analyze_segment extract classify audio_data sr threshold segment_samples start_sample =
     (let end_sample = start_sample + segment_samples;
          segment = slice audio_data start_sample end_sample
      in case extract segment sr of
           Inl e \<Rightarrow> Inl e
         | Inr features \<Rightarrow>
             (case classify features threshold of
                Inl e \<Rightarrow> Inl e
              | Inr detection_result \<Rightarrow>
                  Inr \<lparr> start_time = real start_sample / real sr,
                        end_time = real end_sample / real sr,
                        seg_confidence = confidence detection_result,
                        seg_is_drone = is_drone detection_result,
                        seg_probability = prob_drone detection_result \<rparr>))"

text \<open>\<open>segments.append(segment_info)\<close> and the "track best segment" update.\<close>

definition record_segment :: "segment_info \<Rightarrow> scan_state \<Rightarrow> scan_state" where
  "record_segment info st =
     (let st1 = st\<lparr> st_segments := st_segments st @ [info] \<rparr>
      in if seg_confidence info > st_max_confidence st1
         then st1\<lparr> st_max_confidence := seg_confidence info, st_best_segment := Some info \<rparr>
         else st1)"

text \<open>
  The loop over the start samples. It has no handler of its own: an exception in one
  pass leaves the loop with that exception, and the later start samples are not visited.
\<close>

fun scan_segments ::
  "('s list \<Rightarrow> nat \<Rightarrow> error + 'f) \<Rightarrow> ('f \<Rightarrow> real \<Rightarrow> error + detection_result) \<Rightarrow>
   's list \<Rightarrow> nat \<Rightarrow> real \<Rightarrow> nat \<Rightarrow> nat list \<Rightarrow> scan_state \<Rightarrow> error + scan_state" where
  "scan_segments extract classify audio_data sr threshold segment_samples [] st = Inr st"
| "scan_segments extract classify audio_data sr threshold segment_samples (start_sample # rest) st =
     (case analyze_segment extract classify audio_data sr threshold segment_samples start_sample of
        Inl e \<Rightarrow> Inl e
      | Inr info \<Rightarrow>
          scan_segments extract classify audio_data sr threshold segment_samples rest
            (record_segment info st))"

text \<open>
  \<open>analyze_long_audio(audio_data, sr, threshold)\<close>. \<open>int(3.0 * sr)\<close> is \<open>3 * sr\<close> and
  \<open>int(3.0 * sr * 0.5)\<close> is \<open>3 * sr div 2\<close>. A zero hop makes \<open>range\<close> raise
  \<open>ValueError\<close>. The handler around the whole body logs and re-raises, so every error of
  the loop is the error of the call.
\<close>

definition analyze_long_audio ::
  "('s list \<Rightarrow> nat \<Rightarrow> error + 'f) \<Rightarrow> ('f \<Rightarrow> real \<Rightarrow> error + detection_result) \<Rightarrow>
   's list \<Rightarrow> nat \<Rightarrow> real \<Rightarrow> error + long_audio_result" where
  "analyze_long_audio extract classify audio_data sr threshold =
     (let segment_samples = 3 * sr;
          total_samples = length audio_data;
          hop_size = (3 * sr) div 2
      in if hop_size = 0 then Inl ValueError
         else
           (case scan_segments extract classify audio_data sr threshold segment_samples
                   (py_range0 (int total_samples - int segment_samples) hop_size)
                   \<lparr> st_segments = [], st_max_confidence = 0, st_best_segment = None \<rparr> of
              Inl e \<Rightarrow> Inl e
            | Inr st \<Rightarrow>
                Inr \<lparr> detected = (st_max_confidence st \<ge> threshold),
                      overall_confidence = st_max_confidence st,
                      best_segment = st_best_segment st,
                      segments = st_segments st,
                      summary = \<lparr> total_segments = length (st_segments st),
                                  detected_segments = length (filter seg_is_drone (st_segments st)),
                                  max_confidence = st_max_confidence st \<rparr> \<rparr>))"

section \<open>Time differences of arrival: \<open>calculate_tdoa_enhanced\<close>\<close>

text \<open>
  Samples, correlations and delays are real numbers: the 64-bit floating-point values of
  the source without rounding, overflow, infinities and NaN. The one place where the
  source itself produces NaN from finite samples (an all-zero recording, divided by its
  peak 0) is written out as a branch of its own below.

  A decoded recording is either one-dimensional (\<open>Mono\<close>) or an array of shape
  (frames, channels), given here by its columns: \<open>Multi chans\<close> with \<open>chans ! i\<close> the
  column \<open>audio_data[:, i]\<close>. All columns of an array have the same length.
\<close>

datatype waveform = Mono "real list" | Multi "real list list"

definition wf_waveform :: "waveform \<Rightarrow> bool" where
  "wf_waveform w =
     (case w of Mono ys \<Rightarrow> True
      | Multi chans \<Rightarrow> (\<forall>c \<in> set chans. length c = length (hd chans)))"

text \<open>
  \<open>np.correlate(a, v, mode='full')\<close>: entry \<open>j\<close> is the sum over \<open>n\<close> of
  \<open>a[n + k] * v[n]\<close> for the lag \<open>k = j - (len(v) - 1)\<close>, where indices outside \<open>a\<close>
  contribute nothing; \<open>j\<close> runs over \<open>len(a) + len(v) - 1\<close> positions.
\<close>

definition correlate :: "real list \<Rightarrow> real list \<Rightarrow> real list" where
  "correlate a v =
     map (\<lambda>j. sum_list (map (\<lambda>n.
                  (let i = int n + int j - (int (length v) - 1)
                   in if 0 \<le> i \<and> i < int (length a) then a ! nat i * v ! n else 0))
                [0..<length v]))
         [0..<length a + length v - 1]"

text \<open>\<open>np.argmax\<close>: the index of the first occurrence of the largest entry.\<close>

fun argmax :: "real list \<Rightarrow> nat" where
  "argmax [] = 0"
| "argmax [x] = 0"
| "argmax (x # xs) = (let k = argmax xs in if x \<ge> xs ! k then 0 else Suc k)"

text \<open>\<open>np.max(np.abs(audio_data))\<close> over a non-empty array.\<close>

definition max_abs :: "real list \<Rightarrow> real" where
  "max_abs xs = fold max (map abs xs) 0"

text \<open>
  The parabolic refinement of the peak index: applied only strictly inside the
  correlation array, otherwise the integer index is kept.
\<close>

definition refine_peak :: "real list \<Rightarrow> nat \<Rightarrow> real" where
  "refine_peak correlation peak_idx =
     (if 0 < peak_idx \<and> int peak_idx < int (length correlation) - 1
      then (let y1 = correlation ! (peak_idx - 1);
                y2 = correlation ! peak_idx;
                y3 = correlation ! (peak_idx + 1);
                offset = (y3 - y1) / (2 * (2 * y2 - y1 - y3))
            in real peak_idx + offset)
      else real peak_idx)"

text \<open>\<open>max_physical_delay = 2.0 / 343.0\<close> and the fallback to zero.\<close>

definition max_physical_delay :: real where
  "max_physical_delay = 2 / 343"

definition validate_tdoa :: "real \<Rightarrow> real" where
  "validate_tdoa tdoa = (if \<bar>tdoa\<bar> > max_physical_delay then 0 else tdoa)"

text \<open>The delay before validation, for one channel against the reference channel.\<close>

definition refined_tdoa :: "real list \<Rightarrow> real list \<Rightarrow> nat \<Rightarrow> real" where
  "refined_tdoa ref_channel channel sr =
     (let correlation = correlate ref_channel channel;
          peak_idx = argmax (map abs correlation);
          lag = refine_peak correlation peak_idx - (real (length ref_channel) - 1)
      in lag / real sr)"

text \<open>
  \<open>calculate_tdoa_enhanced(audio_data, sr)\<close>. The handler around the body turns every
  exception into the error component of the returned pair.
  \<^item> Fewer than three channels, or a one-dimensional array: the insufficient-channels
    error.
  \<^item> An array without frames: \<open>np.max\<close> of an empty array raises \<open>ValueError\<close>.
  \<^item> An all-zero array: the division by the peak 0 makes every sample NaN, every
    correlation entry is NaN, \<open>np.argmax\<close> of an all-NaN array is 0, and index 0 is not
    refined; the delay before validation is \<open>(0 - (len - 1)) / sr\<close>.
  \<^item> Otherwise the loop \<open>for i in range(1, 3)\<close> computes one delay for channel 1 and
    one for channel 2.
\<close>

definition calculate_tdoa_enhanced :: "waveform \<Rightarrow> nat \<Rightarrow> error + real list" where
  "calculate_tdoa_enhanced audio_data sr =
     (case audio_data of
        Mono ys \<Rightarrow> Inl (InsufficientChannels 1)
      | Multi chans \<Rightarrow>
          if length chans < 3 then Inl (InsufficientChannels (length chans))
          else if concat chans = [] then Inl ValueError
          else
            (let peak = max_abs (concat chans)
             in if peak = 0
                then Inr (map (\<lambda>i. validate_tdoa ((0 - (real (length (chans ! 0)) - 1)) / real sr))
                            [1..<3])
                else
                  (let normalized = map (map (\<lambda>v. v / peak)) chans;
                       ref_channel = normalized ! 0
                   in Inr (map (\<lambda>i. validate_tdoa (refined_tdoa ref_channel (normalized ! i) sr))
                             [1..<3]))))"

section \<open>Multilateration: \<open>localize_drone_enhanced\<close>\<close>

text \<open>\<open>LocalizationConfig\<close>.\<close>

definition MIC_POSITIONS :: "(real \<times> real) list" where
  "MIC_POSITIONS = [(0, 0), (1/2, 0), (0, 1/2)]"

definition SOUND_SPEED :: real where
  "SOUND_SPEED = 343"

text \<open>
  \<open>np.linalg.lstsq(A, b, rcond=None)\<close> for a system of two equations in two unknowns:
  the least-squares solution of minimal norm. For an invertible matrix this is the
  solution of the system; for a matrix of rank one it is \<open>A\<^sup>T b\<close> divided by the squared
  Frobenius norm of \<open>A\<close>; for the zero matrix it is zero.
\<close>

definition lstsq2 :: "(real \<times> real) \<times> (real \<times> real) \<Rightarrow> real \<times> real \<Rightarrow> real \<times> real" where
  "lstsq2 A b =
     (let a11 = fst (fst A); a12 = snd (fst A); a21 = fst (snd A); a22 = snd (snd A);
          b1 = fst b; b2 = snd b;
          det = a11 * a22 - a12 * a21;
          frob = a11 * a11 + a12 * a12 + a21 * a21 + a22 * a22
      in if det \<noteq> 0 then ((b1 * a22 - a12 * b2) / det, (a11 * b2 - a21 * b1) / det)
         else if frob = 0 then (0, 0)
         else ((a11 * b1 + a21 * b2) / frob, (a12 * b1 + a22 * b2) / frob))"

text \<open>
  The linear system of the source and its least-squares solution, before the bounds
  check: one row \<open>[2*(xi - x0), 2*(yi - y0)]\<close> and one right-hand side
  \<open>xi**2 + yi**2 - x0**2 - y0**2 - di**2\<close> for each of the microphones 1 and 2.
\<close>

definition linear_row :: "(real \<times> real) list \<Rightarrow> nat \<Rightarrow> real \<times> real" where
  "linear_row mic_positions i =
     (let x0 = fst (mic_positions ! 0); y0 = snd (mic_positions ! 0);
          xi = fst (mic_positions ! i); yi = snd (mic_positions ! i)
      in (2 * (xi - x0), 2 * (yi - y0)))"

definition linear_rhs :: "real list \<Rightarrow> (real \<times> real) list \<Rightarrow> real \<Rightarrow> nat \<Rightarrow> real" where
  "linear_rhs tdoas mic_positions sound_speed i =
     (let x0 = fst (mic_positions ! 0); y0 = snd (mic_positions ! 0);
          xi = fst (mic_positions ! i); yi = snd (mic_positions ! i);
          di = tdoas ! (i - 1) * sound_speed
      in xi^2 + yi^2 - x0^2 - y0^2 - di^2)"

definition solve_position :: "real list \<Rightarrow> (real \<times> real) list \<Rightarrow> real \<Rightarrow> real \<times> real" where
  "solve_position tdoas mic_positions sound_speed =
     lstsq2 (linear_row mic_positions 1, linear_row mic_positions 2)
            (linear_rhs tdoas mic_positions sound_speed 1,
             linear_rhs tdoas mic_positions sound_speed 2)"

text \<open>
  \<open>localize_drone_enhanced(tdoas, mic_positions, sound_speed)\<close> returns a pair of a
  position and an error message, one of them \<open>None\<close>; there is no third component.
  \<open>tdoas\<close> may be \<open>None\<close>. Indexing a microphone array of fewer than three rows raises
  \<open>IndexError\<close>, which the handler returns as the error.
\<close>

definition localize_drone_enhanced ::
  "real list option \<Rightarrow> (real \<times> real) list \<Rightarrow> real \<Rightarrow> error + real list" where
  "localize_drone_enhanced tdoas mic_positions sound_speed =
     (case tdoas of
        None \<Rightarrow> Inl InvalidTDOAData
      | Some ts \<Rightarrow>
          if length ts \<noteq> 2 then Inl InvalidTDOAData
          else if length mic_positions < 3 then Inl IndexError
          else
            (let position = solve_position ts mic_positions sound_speed
             in if fst position < -10 \<or> fst position > 10 \<or>
                   snd position < -10 \<or> snd position > 10
                then Inr [1, 1]
                else Inr [fst position, snd position]))"

section \<open>Feature extraction: \<open>AudioProcessor\<close>\<close>

subsection \<open>Array entries with the special values of floating-point arithmetic\<close>

text \<open>
  The contract of the feature extractor speaks about non-finite values, so the entries of
  its arrays are finite reals or one of the three special values of IEEE arithmetic.
  The operations follow the IEEE rules for the special values; rounding, overflow and the
  sign of zero are not modelled.
\<close>

datatype fl = Fin real | PInf | NInf | NaN

fun fneg :: "fl \<Rightarrow> fl" where
  "fneg (Fin a) = Fin (- a)"
| "fneg PInf = NInf"
| "fneg NInf = PInf"
| "fneg NaN = NaN"

fun fadd :: "fl \<Rightarrow> fl \<Rightarrow> fl" where
  "fadd (Fin a) (Fin b) = Fin (a + b)"
| "fadd (Fin a) PInf = PInf"
| "fadd (Fin a) NInf = NInf"
| "fadd PInf (Fin b) = PInf"
| "fadd PInf PInf = PInf"
| "fadd PInf NInf = NaN"
| "fadd NInf (Fin b) = NInf"
| "fadd NInf PInf = NaN"
| "fadd NInf NInf = NInf"
| "fadd NaN y = NaN"
| "fadd x NaN = NaN"

definition fsub :: "fl \<Rightarrow> fl \<Rightarrow> fl" where
  "fsub x y = fadd x (fneg y)"

fun fmul :: "fl \<Rightarrow> fl \<Rightarrow> fl" where
  "fmul (Fin a) (Fin b) = Fin (a * b)"
| "fmul (Fin a) PInf = (if a = 0 then NaN else if a > 0 then PInf else NInf)"
| "fmul (Fin a) NInf = (if a = 0 then NaN else if a > 0 then NInf else PInf)"
| "fmul PInf (Fin b) = (if b = 0 then NaN else if b > 0 then PInf else NInf)"
| "fmul NInf (Fin b) = (if b = 0 then NaN else if b > 0 then NInf else PInf)"
| "fmul PInf PInf = PInf"
| "fmul PInf NInf = NInf"
| "fmul NInf PInf = NInf"
| "fmul NInf NInf = PInf"
| "fmul NaN y = NaN"
| "fmul x NaN = NaN"

fun fdiv :: "fl \<Rightarrow> fl \<Rightarrow> fl" where
  "fdiv (Fin a) (Fin b) =
     (if b = 0 then (if a = 0 then NaN else if a > 0 then PInf else NInf) else Fin (a / b))"
| "fdiv (Fin a) PInf = Fin 0"
| "fdiv (Fin a) NInf = Fin 0"
| "fdiv PInf (Fin b) = (if b \<ge> 0 then PInf else NInf)"
| "fdiv NInf (Fin b) = (if b \<ge> 0 then NInf else PInf)"
| "fdiv PInf PInf = NaN"
| "fdiv PInf NInf = NaN"
| "fdiv NInf PInf = NaN"
| "fdiv NInf NInf = NaN"
| "fdiv NaN y = NaN"
| "fdiv x NaN = NaN"

fun flog10 :: "fl \<Rightarrow> fl" where
  "flog10 (Fin a) = (if a > 0 then Fin (log 10 a) else if a = 0 then NInf else NaN)"
| "flog10 PInf = PInf"
| "flog10 NInf = NaN"
| "flog10 NaN = NaN"

fun fsqrt :: "fl \<Rightarrow> fl" where
  "fsqrt (Fin a) = (if a \<ge> 0 then Fin (sqrt a) else NaN)"
| "fsqrt PInf = PInf"
| "fsqrt NInf = NaN"
| "fsqrt NaN = NaN"

text \<open>Sums as numpy accumulates them, entry after entry.\<close>

definition fsum :: "fl list \<Rightarrow> fl" where
  "fsum xs = foldl fadd (Fin 0) xs"

subsection \<open>Two-dimensional arrays\<close>

text \<open>
  A two-dimensional array is the list of its rows; \<open>shape[0]\<close> is the number of rows and
  \<open>shape[1]\<close> the length of a row. All rows of an array have the same length
  (\<open>rect\<close>).
\<close>

type_synonym matrix = "fl list list"

definition ncols :: "matrix \<Rightarrow> nat" where
  "ncols m = (case m of [] \<Rightarrow> 0 | r # _ \<Rightarrow> length r)"

definition rect :: "matrix \<Rightarrow> bool" where
  "rect m = (\<forall>r \<in> set m. length r = ncols m)"

text \<open>\<open>np.dot(A, B)\<close> for matrices whose inner dimensions agree.\<close>

definition matmul :: "matrix \<Rightarrow> matrix \<Rightarrow> matrix" where
  "matmul A B =
     map (\<lambda>row. map (\<lambda>j. fsum (map (\<lambda>(a, r). fmul a (r ! j)) (zip row B))) [0..<ncols B]) A"

text \<open>\<open>m.mean()\<close> and \<open>m.std()\<close> over all entries of the array.\<close>

definition mean :: "matrix \<Rightarrow> fl" where
  "mean m = fdiv (fsum (concat m)) (Fin (real (length (concat m))))"

definition std :: "matrix \<Rightarrow> fl" where
  "std m =
     (let mu = mean m
      in fsqrt (mean (map (map (\<lambda>v. fmul (fsub v mu) (fsub v mu))) m)))"

subsection \<open>The fields of \<open>AudioProcessor\<close>\<close>

definition n_mels :: nat where "n_mels = 64"
definition hop_length :: nat where "hop_length = 256"
definition n_fft :: nat where "n_fft = 1024"
definition expected_time_frames :: nat where "expected_time_frames = 259"

subsection \<open>\<open>preprocess_audio\<close>\<close>

text \<open>
  Pad with zeros or truncate to \<open>int(sr * 3.0)\<close> samples.
\<close>

definition preprocess_audio :: "fl list \<Rightarrow> nat \<Rightarrow> fl list" where
  "preprocess_audio y sr =
     (let target_samples = 3 * sr
      in if length y < target_samples
         then y @ replicate (target_samples - length y) (Fin 0)
         else take target_samples y)"

subsection \<open>The mel filter bank\<close>

definition hz_to_mel :: "real \<Rightarrow> real" where
  "hz_to_mel frequency = 2595 * log 10 (1 + frequency / 700)"

definition mel_to_hz :: "real \<Rightarrow> real" where
  "mel_to_hz mel = 700 * (10 powr (mel / 2595) - 1)"

text \<open>\<open>np.linspace(a, b, num)\<close>; for \<open>num = 1\<close> the only point is \<open>a\<close>.\<close>

definition linspace :: "real \<Rightarrow> real \<Rightarrow> nat \<Rightarrow> real list" where
  "linspace a b num = map (\<lambda>i. a + real i * ((b - a) / real (num - 1))) [0..<num]"

text \<open>
  \<open>create_mel_filterbank(sr, n_mels, n_fft_bins)\<close>. The array starts as zeros; row \<open>i\<close>
  receives a rising ramp on the columns \<open>left..center-1\<close> and a falling ramp on
  \<open>center..right-1\<close> when \<open>left < center < right\<close>, and is then scaled by
  \<open>2 / (hz_points[i+2] - hz_points[i])\<close>. The bin indices never exceed \<open>n_fft_bins\<close>,
  so both slices lie inside the row.

  For \<open>sr = 0\<close> all frequency points are 0: the bin indices are the integer cast of
  NaN, equal for all points, so no ramp is written; the scale is \<open>2.0 / 0.0\<close>, infinite,
  and zero times infinity makes every entry NaN.
\<close>

definition filter_entry :: "int list \<Rightarrow> nat \<Rightarrow> nat \<Rightarrow> real" where
  "filter_entry fft_bins i j =
     (let left = fft_bins ! i; center = fft_bins ! (i + 1); right = fft_bins ! (i + 2)
      in if left < center \<and> center < right
         then (if left \<le> int j \<and> int j < center
               then linspace 0 1 (nat (center - left)) ! nat (int j - left)
               else if center \<le> int j \<and> int j < right
               then linspace 1 0 (nat (right - center)) ! nat (int j - center)
               else 0)
         else 0)"

definition create_mel_filterbank :: "nat \<Rightarrow> nat \<Rightarrow> nat \<Rightarrow> matrix" where
  "create_mel_filterbank sr nmels n_fft_bins =
     (if sr = 0 then replicate nmels (replicate n_fft_bins NaN)
      else
        (let low_mel = hz_to_mel 0;
             high_mel = hz_to_mel (real sr / 2);
             mel_points = linspace low_mel high_mel (nmels + 2);
             hz_points = map mel_to_hz mel_points;
             fft_bins = map (\<lambda>hz. \<lfloor>real (n_fft_bins + 1) * hz / real sr\<rfloor>) hz_points
         in map (\<lambda>i. map (\<lambda>j. Fin (filter_entry fft_bins i j *
                                     (2 / (hz_points ! (i + 2) - hz_points ! i))))
                          [0..<n_fft_bins])
                [0..<nmels]))"

definition linear_to_mel :: "matrix \<Rightarrow> nat \<Rightarrow> nat \<Rightarrow> matrix" where
  "linear_to_mel spectrogram sr nmels =
     matmul (create_mel_filterbank sr nmels (length spectrogram)) spectrogram"

subsection \<open>\<open>resize_to_target\<close>\<close>

text \<open>
  \<open>scipy.ndimage.zoom(features, zoom_factor, order=1)\<close> is the parameter \<open>zoom\<close>; it
  returns an array or raises. The quotient \<open>target_frames / current_frames\<close> of two
  Python integers raises \<open>ZeroDivisionError\<close> for an array without columns. After the
  interpolation the excess columns are cut, or the last column is repeated:
  \<open>resized[:, -1:]\<close> is the last entry of each row, and no entry when the row is empty.
\<close>

definition resize_to_target ::
  "(matrix \<Rightarrow> real \<times> real \<Rightarrow> error + matrix) \<Rightarrow> matrix \<Rightarrow> nat \<Rightarrow> error + matrix" where
  "resize_to_target zoom features target_frames =
     (let current_frames = ncols features
      in if current_frames = target_frames then Inr features
         else if current_frames = 0 then Inl ZeroDivisionError
         else
           (case zoom features (1, real target_frames / real current_frames) of
              Inl e \<Rightarrow> Inl e
            | Inr resized \<Rightarrow>
                if ncols resized > target_frames
                then Inr (map (take target_frames) resized)
                else if ncols resized < target_frames
                then (let padding = target_frames - ncols resized
                      in Inr (map (\<lambda>row. row @ concat (replicate padding
                                                          (drop (length row - 1) row)))
                                  resized))
                else Inr resized))"

subsection \<open>\<open>extract_features\<close>\<close>

text \<open>\<open>10 * np.log10(mel_spectrum + 1e-10)\<close>.\<close>

definition to_db :: "matrix \<Rightarrow> matrix" where
  "to_db mel_spectrum =
     map (map (\<lambda>v. fmul (Fin 10) (flog10 (fadd v (Fin (1 / 10 ^ 10)))))) mel_spectrum"

text \<open>\<open>(mel_db - mel_db.mean()) / (mel_db.std() + 1e-8)\<close>.\<close>

definition normalize_features :: "matrix \<Rightarrow> matrix" where
  "normalize_features mel_db =
     (let mu = mean mel_db; sigma = std mel_db
      in map (map (\<lambda>v. fdiv (fsub v mu) (fadd sigma (Fin (1 / 10 ^ 8))))) mel_db)"

text \<open>
  The log-mel array after the resize step. \<open>scipy.signal.spectrogram\<close> with the Hann
  window, density scaling and magnitude mode is the parameter \<open>spectrogram\<close>, called
  with the signal, \<open>fs\<close>, \<open>nperseg\<close> and \<open>noverlap\<close>; it returns the array \<open>Sxx\<close> (one
  row per frequency bin, one column per time frame) or raises.
\<close>

definition resized_mel_db ::
  "(fl list \<Rightarrow> nat \<Rightarrow> nat \<Rightarrow> nat \<Rightarrow> error + matrix) \<Rightarrow>
   (matrix \<Rightarrow> real \<times> real \<Rightarrow> error + matrix) \<Rightarrow> fl list \<Rightarrow> nat \<Rightarrow> error + matrix" where
  "resized_mel_db spectrogram zoom y sr =
     (let y_processed = preprocess_audio y sr
      in case spectrogram y_processed sr n_fft (n_fft - hop_length) of
           Inl e \<Rightarrow> Inl e
         | Inr Sxx \<Rightarrow>
             (let mel_spectrum = linear_to_mel Sxx sr n_mels;
                  mel_db = to_db mel_spectrum;
                  current_frames = ncols mel_db
              in if current_frames \<noteq> expected_time_frames
                 then resize_to_target zoom mel_db expected_time_frames
                 else Inr mel_db))"

text \<open>
  \<open>extract_features(y, sr)\<close>: normalise, add the channel axis and repeat the array three
  times. There is no test of the values anywhere in the body; the handler wraps the
  exceptions of the calls above into "Feature extraction failed".
\<close>

definition extract_features ::
  "(fl list \<Rightarrow> nat \<Rightarrow> nat \<Rightarrow> nat \<Rightarrow> error + matrix) \<Rightarrow>
   (matrix \<Rightarrow> real \<times> real \<Rightarrow> error + matrix) \<Rightarrow> fl list \<Rightarrow> nat \<Rightarrow> error + matrix list" where
  "extract_features spectrogram zoom y sr =
     (case resized_mel_db spectrogram zoom y sr of
        Inl e \<Rightarrow> Inl (FeatureExtractionFailed e)
      | Inr mel_db \<Rightarrow> Inr (replicate 3 (normalize_features mel_db)))"

section \<open>Auxiliary notions for the properties\<close>

text \<open>An array of \<open>rows\<close> rows that all have \<open>cols\<close> entries.\<close>

definition has_shape :: "matrix \<Rightarrow> nat \<Rightarrow> nat \<Rightarrow> bool" where
  "has_shape m rows cols = (length m = rows \<and> (\<forall>r\<in>set m. length r = cols))"

text \<open>
  The Euclidean distance, and the time differences that a source at a known position
  produces: \<open>d\<^sub>i = \<parallel>source - mic\<^sub>i\<parallel> - \<parallel>source - mic\<^sub>0\<parallel>\<close> divided by the speed of sound, for
  the microphones 1 and 2.
\<close>

definition distance :: "real \<times> real \<Rightarrow> real \<times> real \<Rightarrow> real" where
  "distance p q = sqrt ((fst p - fst q)^2 + (snd p - snd q)^2)"

definition analytic_tdoas :: "real \<times> real \<Rightarrow> (real \<times> real) list \<Rightarrow> real \<Rightarrow> real list" where
  "analytic_tdoas source mic_positions sound_speed =
     map (\<lambda>i. (distance source (mic_positions ! i) - distance source (mic_positions ! 0))
               / sound_speed)
         [1..<3]"

text \<open>A second microphone geometry, with the outer microphones two metres out.\<close>

definition wide_array :: "(real \<times> real) list" where
  "wide_array = [(0, 0), (2, 0), (0, 2)]"

text \<open>
  A channel continued by zeros, and its autocorrelation at a non-negative lag, as sums
  over the positions of the channel.
\<close>

definition padded :: "real list \<Rightarrow> nat \<Rightarrow> real" where
  "padded u m = (if m < length u then u ! m else 0)"

definition acorr :: "real list \<Rightarrow> nat \<Rightarrow> real" where
  "acorr u k = (\<Sum>m = 0..<length u. padded u (m + k) * padded u m)"

text \<open>
  Stand-ins for the external collaborators, used to run the functions on concrete
  inputs. The extractor fails on a window that contains the sample 1; the network
  answers with the logits of the probabilities 0.9 (no drone) and 0.1 (drone); the
  spectrogram has one frequency bin and a chosen number of frames, each holding the
  first sample of the signal; the interpolation returns its input.
\<close>

definition stub_extract :: "nat list \<Rightarrow> nat \<Rightarrow> error + nat list" where
  "stub_extract segment sr = (if 1 \<in> set segment then Inl LibraryFailure else Inr segment)"

definition stub_net :: "nat list \<Rightarrow> error + real \<times> real" where
  "stub_net features = Inr (ln 9, 0)"

definition stub_spectrogram :: "nat \<Rightarrow> fl list \<Rightarrow> nat \<Rightarrow> nat \<Rightarrow> nat \<Rightarrow> error + matrix" where
  "stub_spectrogram frames y fs nperseg noverlap =
     (case y of [] \<Rightarrow> Inl ValueError | v # _ \<Rightarrow> Inr [replicate frames v])"

definition stub_zoom :: "matrix \<Rightarrow> real \<times> real \<Rightarrow> error + matrix" where
  "stub_zoom m factor = Inr m"

text \<open>A transform stand-in: one frequency bin, 255 frames, all zero.\<close>

definition stub_stft :: "fl list \<Rightarrow> nat \<Rightarrow> nat \<Rightarrow> nat \<Rightarrow> matrix" where
  "stub_stft x fs nperseg noverlap = [replicate 255 (Fin 0)]"

text \<open>
  The delay of channel \<open>i\<close> against channel 0 as \<open>calculate_tdoa_enhanced\<close> has it in the
  variable \<open>tdoa\<close> just before the plausibility check: \<open>lag / sr\<close>, with the lag taken from
  the refined peak of the correlation of the normalised channels, or, for an all-zero
  recording, from the peak index 0.
\<close>

definition raw_tdoa :: "real list list \<Rightarrow> nat \<Rightarrow> nat \<Rightarrow> real" where
  "raw_tdoa chans sr i =
     (let peak = max_abs (concat chans)
      in if peak = 0 then (0 - (real (length (chans ! 0)) - 1)) / real sr
         else (let normalized = map (map (\<lambda>v. v / peak)) chans
               in refined_tdoa (normalized ! 0) (normalized ! i) sr))"

text \<open>
  The argument checks that \<open>scipy.signal.spectrogram\<close> makes before it transforms the
  signal: a segment length above the length of the signal is cut to that length (with a
  warning), and an overlap that is not below the segment length raises \<open>ValueError\<close>
  ("noverlap must be less than nperseg"). The transform itself is the parameter \<open>stft\<close>,
  called with the segment length in force.
\<close>

definition checked_spectrogram ::
  "(fl list \<Rightarrow> nat \<Rightarrow> nat \<Rightarrow> nat \<Rightarrow> matrix) \<Rightarrow> fl list \<Rightarrow> nat \<Rightarrow> nat \<Rightarrow> nat \<Rightarrow> error + matrix" where
  "checked_spectrogram stft x fs nperseg noverlap =
     (let nperseg' = (if nperseg > length x then length x else nperseg)
      in if noverlap \<ge> nperseg' then Inl ValueError
         else Inr (stft x fs nperseg' noverlap))"


section \<open>Properties of the segment scanner\<close>

lemma scan_segments_times:
  "scan_segments ex cl audio sr thr n starts st = Inr st' \<Longrightarrow>
   map start_time (st_segments st') =
     map start_time (st_segments st) @ map (\<lambda>s. real s / real sr) starts \<and>
   map end_time (st_segments st') =
     map end_time (st_segments st) @ map (\<lambda>s. real (s + n) / real sr) starts"
proof (induction starts arbitrary: st)
  case Nil
  then show ?case by simp
next
  case (Cons s starts)
  then show ?case
    by (auto simp: Let_def analyze_segment_def record_segment_def split: sum.splits if_splits)
qed

lemma scan_segments_abort:
  "\<exists>s\<in>set starts. isl (analyze_segment ex cl audio sr thr n s) \<Longrightarrow>
   isl (scan_segments ex cl audio sr thr n starts st)"
proof (induction starts arbitrary: st)
  case Nil
  then show ?case by simp
next
  case (Cons s starts)
  then show ?case
    by (cases "analyze_segment ex cl audio sr thr n s") auto
qed

lemma scan_segments_total:
  "(\<forall>s\<in>set starts. \<not> isl (analyze_segment ex cl audio sr thr n s)) \<Longrightarrow>
   \<exists>st'. scan_segments ex cl audio sr thr n starts st = Inr st'"
proof (induction starts arbitrary: st)
  case Nil
  then show ?case by simp
next
  case (Cons s starts)
  then show ?case
    by (cases "analyze_segment ex cl audio sr thr n s") auto
qed

lemma record_segment_max:
  "(\<forall>i\<in>set (st_segments st). seg_confidence i \<le> st_max_confidence st) \<Longrightarrow>
   (\<forall>i\<in>set (st_segments (record_segment info st)).
        seg_confidence i \<le> st_max_confidence (record_segment info st))"
  by (auto simp: record_segment_def Let_def)

lemma scan_segments_max:
  "scan_segments ex cl audio sr thr n starts st = Inr st' \<Longrightarrow>
   (\<forall>i\<in>set (st_segments st). seg_confidence i \<le> st_max_confidence st) \<Longrightarrow>
   (\<forall>i\<in>set (st_segments st'). seg_confidence i \<le> st_max_confidence st')"
proof (induction starts arbitrary: st)
  case Nil
  then show ?case by simp
next
  case (Cons s starts)
  show ?case
  proof (cases "analyze_segment ex cl audio sr thr n s")
    case (Inl e)
    with Cons.prems show ?thesis by simp
  next
    case (Inr info)
    with Cons.prems(1)
    have "scan_segments ex cl audio sr thr n starts (record_segment info st) = Inr st'"
      by simp
    then show ?thesis
      using Cons.prems(2) by (rule Cons.IH[OF _ record_segment_max])
  qed
qed

lemma analyze_long_audio_scan:
  assumes "analyze_long_audio ex cl audio sr thr = Inr r"
  obtains st where
    "scan_segments ex cl audio sr thr (3 * sr)
        (py_range0 (int (length audio) - int (3 * sr)) ((3 * sr) div 2))
        \<lparr> st_segments = [], st_max_confidence = 0, st_best_segment = None \<rparr> = Inr st"
    and "segments r = st_segments st"
    and "overall_confidence r = st_max_confidence st"
  using assms
  by (auto simp: analyze_long_audio_def Let_def split: if_splits sum.splits)

lemma analyze_long_audio_max:
  assumes "analyze_long_audio ex cl audio sr thr = Inr r"
  shows "\<forall>i\<in>set (segments r). seg_confidence i \<le> overall_confidence r"
proof -
  from assms obtain st where
    sc: "scan_segments ex cl audio sr thr (3 * sr)
            (py_range0 (int (length audio) - int (3 * sr)) ((3 * sr) div 2))
            \<lparr> st_segments = [], st_max_confidence = 0, st_best_segment = None \<rparr> = Inr st"
    and r: "segments r = st_segments st" "overall_confidence r = st_max_confidence st"
    by (rule analyze_long_audio_scan)
  from scan_segments_max[OF sc] r show ?thesis by simp
qed

lemma analyze_long_audio_fields:
  assumes "analyze_long_audio ex cl audio sr thr = Inr r"
  shows "detected r = (overall_confidence r \<ge> thr)"
    and "detected_segments (summary r) = length (filter seg_is_drone (segments r))"
    and "total_segments (summary r) = length (segments r)"
    and "max_confidence (summary r) = overall_confidence r"
  using assms
  by (auto simp: analyze_long_audio_def Let_def split: if_splits sum.splits)

lemma analyze_long_audio_times:
  assumes "analyze_long_audio ex cl audio sr thr = Inr r"
  shows "map start_time (segments r) =
           map (\<lambda>s. real s / real sr)
               (py_range0 (int (length audio) - int (3 * sr)) ((3 * sr) div 2))"
    and "map end_time (segments r) =
           map (\<lambda>s. real (s + 3 * sr) / real sr)
               (py_range0 (int (length audio) - int (3 * sr)) ((3 * sr) div 2))"
proof -
  from assms obtain st where
    sc: "scan_segments ex cl audio sr thr (3 * sr)
            (py_range0 (int (length audio) - int (3 * sr)) ((3 * sr) div 2))
            \<lparr> st_segments = [], st_max_confidence = 0, st_best_segment = None \<rparr> = Inr st"
    and r: "segments r = st_segments st"
    by (rule analyze_long_audio_scan)
  from scan_segments_times[OF sc] r
  show "map start_time (segments r) =
           map (\<lambda>s. real s / real sr)
               (py_range0 (int (length audio) - int (3 * sr)) ((3 * sr) div 2))"
    and "map end_time (segments r) =
           map (\<lambda>s. real (s + 3 * sr) / real sr)
               (py_range0 (int (length audio) - int (3 * sr)) ((3 * sr) div 2))"
    by simp_all
qed

lemma analyze_long_audio_abort:
  assumes "\<exists>s\<in>set (py_range0 (int (length audio) - int (3 * sr)) ((3 * sr) div 2)).
             isl (analyze_segment ex cl audio sr thr (3 * sr) s)"
  shows "isl (analyze_long_audio ex cl audio sr thr)"
proof -
  have "isl (scan_segments ex cl audio sr thr (3 * sr)
            (py_range0 (int (length audio) - int (3 * sr)) ((3 * sr) div 2))
            \<lparr> st_segments = [], st_max_confidence = 0, st_best_segment = None \<rparr>)"
    using assms by (rule scan_segments_abort)
  then show ?thesis
    by (auto simp: analyze_long_audio_def Let_def split: sum.splits)
qed

lemma analyze_long_audio_total:
  assumes "0 < (3 * sr) div 2"
    and "\<forall>s\<in>set (py_range0 (int (length audio) - int (3 * sr)) ((3 * sr) div 2)).
             \<not> isl (analyze_segment ex cl audio sr thr (3 * sr) s)"
  shows "\<exists>r. analyze_long_audio ex cl audio sr thr = Inr r"
proof -
  from scan_segments_total[OF assms(2)] obtain st where
    "scan_segments ex cl audio sr thr (3 * sr)
            (py_range0 (int (length audio) - int (3 * sr)) ((3 * sr) div 2))
            \<lparr> st_segments = [], st_max_confidence = 0, st_best_segment = None \<rparr> = Inr st"
    by blast
  then show ?thesis using assms(1) by (simp add: analyze_long_audio_def Let_def)
qed

text \<open>The range of start samples for twelve seconds at 22050 Hz and at 2 Hz.\<close>

lemma py_range0_12s:
  "py_range0 (int 264600 - int (3 * 22050)) ((3 * 22050) div 2) =
     [0, 33075, 66150, 99225, 132300, 165375]"
  by (simp add: py_range0_def upt_conv_Cons)

lemma py_range0_2hz: "py_range0 (int 24 - int (3 * 2)) ((3 * 2) div 2) = [0, 3, 6, 9, 12, 15]"
  by (simp add: py_range0_def upt_conv_Cons)

text \<open>The stand-in classifier.\<close>

lemma softmax_stub: "softmax2 (ln 9, 0) = (9/10, 1/10)"
  by (simp add: softmax2_def Let_def)

lemma predict_stub:
  "predict (Some stub_net) f (7/10) =
     Inr \<lparr> is_drone = False, confidence = 9/10, prob_non_drone = 9/10, prob_drone = 1/10,
           predicted_class = 0, raw_drone_probability = 1/10, threshold_used = 7/10 \<rparr>"
  by (simp add: predict_def stub_net_def softmax_stub Let_def)

lemma analyze_segment_stub:
  "1 \<notin> set audio \<Longrightarrow>
   \<not> isl (analyze_segment stub_extract (predict (Some stub_net)) audio sr (7/10) n s)"
proof -
  assume "1 \<notin> set audio"
  then have "1 \<notin> set (slice audio s (s + n))"
    by (auto simp: slice_def dest: in_set_takeD in_set_dropD)
  then show ?thesis
    by (simp add: analyze_segment_def Let_def stub_extract_def predict_stub)
qed

lemma quiet_recording_2hz:
  "\<exists>r. analyze_long_audio stub_extract (predict (Some stub_net)) (replicate 24 0) 2 (7/10) = Inr r
       \<and> segments r \<noteq> []
       \<and> (\<forall>s\<in>set (segments r). \<not> seg_is_drone s \<and> seg_confidence s = 9/10)"
  apply (simp add: analyze_long_audio_def Let_def py_range0_def upt_conv_Cons)
  apply (simp add: analyze_segment_def Let_def slice_def stub_extract_def predict_stub
      record_segment_def)
  done

text \<open>
  Claim C2. A recording of twelve seconds at 22050 Hz has 264600 samples. Whenever the
  scan of such a recording returns, it has analysed six windows, not seven: their start
  times are 0, 1.5, ..., 7.5 seconds, exactly one hop apart, and the last window ends at
  10.5 seconds. The window from 9 to 12 seconds is complete but is never analysed,
  because the stop value of the range, \<open>total_samples - segment_samples\<close>, is excluded.
\<close>

theorem twelve_seconds_six_segments:
  assumes "analyze_long_audio ex cl audio 22050 thr = Inr r" and "length audio = 264600"
  shows "length (segments r) = 6 \<and> total_segments (summary r) = 6
       \<and> map start_time (segments r) = [0, 3/2, 3, 9/2, 6, 15/2]
       \<and> map end_time (segments r) = [3, 9/2, 6, 15/2, 9, 21/2]"
proof -
  have st: "map start_time (segments r) = [0, 3/2, 3, 9/2, 6, 15/2]"
    using analyze_long_audio_times(1)[OF assms(1)] py_range0_12s assms(2) by simp
  have en: "map end_time (segments r) = [3, 9/2, 6, 15/2, 9, 21/2]"
    using analyze_long_audio_times(2)[OF assms(1)] py_range0_12s assms(2) by simp
  have "length (map start_time (segments r)) = 6" unfolding st by simp
  then have "length (segments r) = 6" by simp
  with st en analyze_long_audio_fields(3)[OF assms(1)] show ?thesis by simp
qed

theorem twelve_seconds_six_segments_witness:
  "\<exists>r. analyze_long_audio stub_extract (predict (Some stub_net)) (replicate 264600 0) 22050 (7/10)
          = Inr r
       \<and> length (replicate 264600 (0::nat)) = 264600
       \<and> length (segments r) = 6 \<and> total_segments (summary r) = 6
       \<and> map start_time (segments r) = [0, 3/2, 3, 9/2, 6, 15/2]
       \<and> map end_time (segments r) = [3, 9/2, 6, 15/2, 9, 21/2]"
proof -
  have "\<exists>r. analyze_long_audio stub_extract (predict (Some stub_net)) (replicate 264600 0)
               22050 (7/10) = Inr r"
    by (rule analyze_long_audio_total) (simp_all add: analyze_segment_stub)
  then obtain r where
    r: "analyze_long_audio stub_extract (predict (Some stub_net)) (replicate 264600 0)
          22050 (7/10) = Inr r"
    by blast
  have len: "length (replicate 264600 (0::nat)) = 264600" by simp
  from twelve_seconds_six_segments[OF r len] r show ?thesis
    by (intro exI[of _ r]) simp
qed

text \<open>
  Claim C4, as stated, fails. On a recording at 2 Hz whose sample 10 makes the extractor
  fail, the scan returns that failure and nothing else: no segment list, no aggregate.
\<close>

theorem segment_error_aborts_scan_example:
  "analyze_long_audio stub_extract (predict (Some stub_net))
      (replicate 10 0 @ [1] @ replicate 13 0) 2 (7/10) = Inl LibraryFailure"
  apply (simp add: analyze_long_audio_def Let_def py_range0_def upt_conv_Cons)
  apply (simp add: analyze_segment_def Let_def slice_def stub_extract_def predict_stub
      record_segment_def)
  done

text \<open>
  Claim C4, amended. An error raised while one window is processed, by the feature
  extraction or by the classifier, ends the scan: \<open>analyze_long_audio\<close> raises and
  returns no result.
\<close>

theorem segment_error_aborts_scan:
  assumes "\<exists>s\<in>set (py_range0 (int (length audio) - int (3 * sr)) ((3 * sr) div 2)).
             isl (analyze_segment ex cl audio sr thr (3 * sr) s)"
  shows "isl (analyze_long_audio ex cl audio sr thr)"
  using assms by (rule analyze_long_audio_abort)

theorem segment_error_aborts_scan_witness:
  "(\<exists>s\<in>set (py_range0 (int (length (replicate 10 0 @ [1] @ replicate 13 (0::nat))) - int (3 * 2))
                ((3 * 2) div 2)).
       isl (analyze_segment stub_extract (predict (Some stub_net))
              (replicate 10 0 @ [1] @ replicate 13 0) 2 (7/10) (3 * 2) s))
   \<and> isl (analyze_long_audio stub_extract (predict (Some stub_net))
              (replicate 10 0 @ [1] @ replicate 13 0) 2 (7/10))"
proof -
  have h: "\<exists>s\<in>set (py_range0 (int (length (replicate 10 0 @ [1] @ replicate 13 (0::nat))) - int (3 * 2))
                ((3 * 2) div 2)).
       isl (analyze_segment stub_extract (predict (Some stub_net))
              (replicate 10 0 @ [1] @ replicate 13 0) 2 (7/10) (3 * 2) s)"
    by (simp add: py_range0_def upt_conv_Cons analyze_segment_def Let_def slice_def
        stub_extract_def)
  from segment_error_aborts_scan[OF h] h show ?thesis by blast
qed

text \<open>The classifier's confidence.\<close>

lemma predict_confidence:
  assumes "predict (Some net) f thr = Inr d"
  shows "confidence d = max (prob_non_drone d) (prob_drone d)" and "confidence d \<ge> 1/2"
    and "prob_non_drone d + prob_drone d = 1" and "is_drone d = (prob_drone d \<ge> thr)"
proof -
  from assms obtain out where d:
    "d = \<lparr> is_drone = (snd (softmax2 out) \<ge> thr),
          confidence = max (fst (softmax2 out)) (snd (softmax2 out)),
          prob_non_drone = fst (softmax2 out),
          prob_drone = snd (softmax2 out),
          predicted_class = (if fst (softmax2 out) \<ge> snd (softmax2 out) then 0 else 1),
          raw_drone_probability = snd (softmax2 out),
          threshold_used = thr \<rparr>"
    by (auto simp: predict_def Let_def split: sum.splits)
  have pos: "exp (fst out) + exp (snd out) > 0"
    by (simp add: add_pos_pos)
  have one: "fst (softmax2 out) + snd (softmax2 out) = 1"
    using pos by (simp add: softmax2_def Let_def add_divide_distrib[symmetric])
  show "confidence d = max (prob_non_drone d) (prob_drone d)" by (simp add: d)
  show "prob_non_drone d + prob_drone d = 1" using one by (simp add: d)
  show "confidence d \<ge> 1/2" using one by (simp add: d max_def)
  show "is_drone d = (prob_drone d \<ge> thr)" by (simp add: d)
qed

lemma all_negative_detected:
  assumes "analyze_long_audio ex cl audio sr thr = Inr r"
    and "\<forall>s\<in>set (segments r). \<not> seg_is_drone s"
    and "\<exists>s\<in>set (segments r). thr \<le> seg_confidence s"
  shows "detected r \<and> detected_segments (summary r) = 0"
proof -
  from assms(3) obtain s where s: "s \<in> set (segments r)" "thr \<le> seg_confidence s" by blast
  with analyze_long_audio_max[OF assms(1)] have "thr \<le> overall_confidence r" by fastforce
  then have "detected r" using analyze_long_audio_fields(1)[OF assms(1)] by simp
  moreover have "filter seg_is_drone (segments r) = []"
    using assms(2) by (simp add: filter_empty_conv)
  then have "detected_segments (summary r) = 0"
    using analyze_long_audio_fields(2)[OF assms(1)] by simp
  ultimately show ?thesis by simp
qed

text \<open>
  Claim C10. The confidence that \<open>predict\<close> returns is the larger of the two class
  probabilities and hence at least one half, whatever \<open>is_drone\<close> says. So when no
  window of a recording is classified as a drone and the threshold is at most the
  confidence of one of these windows, the scan reports \<open>detected = True\<close> together with
  \<open>detected_segments = 0\<close>. The witness below is such a recording: every window has the
  no-drone probability 0.9, and the threshold is 0.7.
\<close>

theorem confidence_is_larger_probability:
  "(predict (Some net) features threshold = Inr d \<longrightarrow>
      confidence d = max (prob_non_drone d) (prob_drone d) \<and> 1/2 \<le> confidence d)
   \<and> (analyze_long_audio extract (predict (Some net)) audio sr threshold = Inr r
        \<and> (\<forall>s\<in>set (segments r). \<not> seg_is_drone s)
        \<and> (\<exists>s\<in>set (segments r). threshold \<le> seg_confidence s) \<longrightarrow>
      detected r \<and> detected_segments (summary r) = 0)"
proof (intro conjI impI)
  assume p: "predict (Some net) features threshold = Inr d"
  show "confidence d = max (prob_non_drone d) (prob_drone d)"
    using p by (rule predict_confidence(1))
  show "1/2 \<le> confidence d"
    using p by (rule predict_confidence(2))
next
  assume a: "analyze_long_audio extract (predict (Some net)) audio sr threshold = Inr r
        \<and> (\<forall>s\<in>set (segments r). \<not> seg_is_drone s)
        \<and> (\<exists>s\<in>set (segments r). threshold \<le> seg_confidence s)"
  then have r: "detected r \<and> detected_segments (summary r) = 0"
    by (intro all_negative_detected[of "extract" "predict (Some net)" audio sr threshold r]) simp_all
  from r show "detected r" by simp
  from r show "detected_segments (summary r) = 0" by simp
qed

theorem confidence_is_larger_probability_witness:
  "\<exists>r. analyze_long_audio stub_extract (predict (Some stub_net)) (replicate 24 0) 2 (7/10) = Inr r
       \<and> segments r \<noteq> []
       \<and> (\<forall>s\<in>set (segments r). \<not> seg_is_drone s \<and> seg_confidence s = 9/10)
       \<and> detected r \<and> detected_segments (summary r) = 0"
proof -
  from quiet_recording_2hz obtain r where
    r: "analyze_long_audio stub_extract (predict (Some stub_net)) (replicate 24 0) 2 (7/10) = Inr r"
    and ne: "segments r \<noteq> []"
    and q: "\<forall>s\<in>set (segments r). \<not> seg_is_drone s \<and> seg_confidence s = 9/10"
    by blast
  from ne obtain s where s: "s \<in> set (segments r)" by (cases "segments r") auto
  with q have "(7/10::real) \<le> seg_confidence s" by simp
  with s have ex: "\<exists>s\<in>set (segments r). (7/10::real) \<le> seg_confidence s" by blast
  from q have nd: "\<forall>s\<in>set (segments r). \<not> seg_is_drone s" by blast
  have "analyze_long_audio stub_extract (predict (Some stub_net)) (replicate 24 0) 2 (7/10) = Inr r
        \<and> (\<forall>s\<in>set (segments r). \<not> seg_is_drone s)
        \<and> (\<exists>s\<in>set (segments r). (7/10::real) \<le> seg_confidence s)"
    using r nd ex by simp
  with confidence_is_larger_probability[of stub_net "[]" "7/10" _ stub_extract "replicate 24 0" 2 r]
  have "detected r \<and> detected_segments (summary r) = 0" by simp
  with r ne q show ?thesis by (intro exI[of _ r]) simp
qed


section \<open>Properties of the multilateration solver\<close>

lemma upt_Suc0_3: "[Suc 0..<3] = [1, 2]"
  by (simp add: upt_conv_Cons)

lemma sqrt5_sqrt2: "sqrt 5 * sqrt 2 = sqrt 10"
  by (simp add: real_sqrt_mult[symmetric])

lemma sqrt_5_4: "sqrt (5 / 4) = sqrt 5 / 2"
proof -
  have "sqrt (5 / 4) = sqrt 5 / sqrt 4" by (simp only: real_sqrt_divide)
  also have "sqrt (4::real) = 2" using real_sqrt_abs[of 2] by simp
  finally show ?thesis .
qed

lemma sqrt10_bounds: "3 < sqrt 10" "sqrt 10 < 16/5"
proof -
  show "3 < sqrt 10" by (rule real_less_rsqrt) simp
  show "sqrt 10 < 16/5" by (rule real_less_lsqrt) (simp_all add: power2_eq_square)
qed

lemma sqrt2_lower: "7/5 < sqrt 2"
  by (rule real_less_rsqrt) (simp add: power2_eq_square)

text \<open>The range differences of a source at (1, 1) for the configured microphones.\<close>

lemma range_diff_sq: "(sqrt 5 / 2 - sqrt 2)^2 = 13/4 - sqrt 10"
proof -
  have "(sqrt 5 / 2 - sqrt 2)^2 = (sqrt 5)^2 / 4 + (sqrt 2)^2 - sqrt 5 * sqrt 2"
    by (simp add: power2_eq_square algebra_simps)
  also have "\<dots> = 5/4 + 2 - sqrt 10"
    by (simp only: sqrt5_sqrt2) simp
  finally show ?thesis by simp
qed

lemma distance_mic0: "distance (1, 1) (0, 0) = sqrt 2"
  by (simp add: distance_def)

lemma distance_mic1: "distance (1, 1) (1/2, 0) = sqrt 5 / 2"
proof -
  have "distance (1, 1) (1/2, 0) = sqrt (5 / 4)"
    by (simp add: distance_def power2_eq_square)
  then show ?thesis by (simp only: sqrt_5_4)
qed

lemma distance_mic2: "distance (1, 1) (0, 1/2) = sqrt 5 / 2"
proof -
  have "distance (1, 1) (0, 1/2) = sqrt (5 / 4)"
    by (simp add: distance_def power2_eq_square)
  then show ?thesis by (simp only: sqrt_5_4)
qed

lemma analytic_tdoas_source:
  "analytic_tdoas (1, 1) MIC_POSITIONS SOUND_SPEED =
     [(sqrt 5 / 2 - sqrt 2) / 343, (sqrt 5 / 2 - sqrt 2) / 343]"
proof -
  have "analytic_tdoas (1, 1) MIC_POSITIONS SOUND_SPEED =
     [(distance (1, 1) (1/2, 0) - distance (1, 1) (0, 0)) / 343,
      (distance (1, 1) (0, 1/2) - distance (1, 1) (0, 0)) / 343]"
    by (simp add: analytic_tdoas_def upt_Suc0_3 MIC_POSITIONS_def SOUND_SPEED_def)
  then show ?thesis
    by (simp only: distance_mic0 distance_mic1 distance_mic2)
qed

lemma localize_in_bounds:
  assumes "length ts = 2" "3 \<le> length mic_positions"
    and "solve_position ts mic_positions c = (x, y)"
    and "-10 \<le> x" "x \<le> 10" "-10 \<le> y" "y \<le> 10"
  shows "localize_drone_enhanced (Some ts) mic_positions c = Inr [x, y]"
  using assms by (simp add: localize_drone_enhanced_def Let_def)

lemma solve_source:
  "solve_position [(sqrt 5 / 2 - sqrt 2) / 343, (sqrt 5 / 2 - sqrt 2) / 343]
      MIC_POSITIONS SOUND_SPEED
     = (sqrt 10 - 3, sqrt 10 - 3)"
proof -
  have r1: "linear_row MIC_POSITIONS 1 = (1, 0)" "linear_row MIC_POSITIONS 2 = (0, 1)"
    by (simp_all add: linear_row_def MIC_POSITIONS_def Let_def)
  have "(sqrt 5 / 2 - sqrt 2) / 343 * 343 = sqrt 5 / 2 - sqrt 2" by simp
  then have d: "((sqrt 5 / 2 - sqrt 2) / 343 * 343)^2 = 13/4 - sqrt 10"
    by (simp only: range_diff_sq)
  have b:
    "linear_rhs [(sqrt 5 / 2 - sqrt 2) / 343, (sqrt 5 / 2 - sqrt 2) / 343]
        MIC_POSITIONS SOUND_SPEED 1 = 1/4 - ((sqrt 5 / 2 - sqrt 2) / 343 * 343)^2"
    "linear_rhs [(sqrt 5 / 2 - sqrt 2) / 343, (sqrt 5 / 2 - sqrt 2) / 343]
        MIC_POSITIONS SOUND_SPEED 2 = 1/4 - ((sqrt 5 / 2 - sqrt 2) / 343 * 343)^2"
    unfolding linear_rhs_def MIC_POSITIONS_def SOUND_SPEED_def Let_def
    by (simp_all add: power2_eq_square[of "1/2"])
  show ?thesis
    unfolding solve_position_def r1 b d by (simp add: lstsq2_def Let_def)
qed

text \<open>
  Claim C1. For the microphones at (0,0), (0.5,0), (0,0.5), the speed 343 and the time
  differences of a source at (1, 1), the solver does not return a point near (1, 1): it
  returns \<open>(\<surd>10 - 3, \<surd>10 - 3)\<close>, about (0.162, 0.162), which lies more than one
  metre from the source. The right-hand side \<open>xi**2 + yi**2 - x0**2 - y0**2 - di**2\<close>
  of the source omits the term \<open>2 * di * \<parallel>source - mic\<^sub>0\<parallel>\<close> of the equation written in
  the comment above it.
\<close>

theorem localize_misses_source:
  "localize_drone_enhanced (Some (analytic_tdoas (1, 1) MIC_POSITIONS SOUND_SPEED))
      MIC_POSITIONS SOUND_SPEED
     = Inr [sqrt 10 - 3, sqrt 10 - 3]
   \<and> distance (sqrt 10 - 3, sqrt 10 - 3) (1, 1) > 1"
proof -
  have len: "length MIC_POSITIONS = 3" by (simp add: MIC_POSITIONS_def)
  have loc: "localize_drone_enhanced (Some (analytic_tdoas (1, 1) MIC_POSITIONS SOUND_SPEED))
      MIC_POSITIONS SOUND_SPEED = Inr [sqrt 10 - 3, sqrt 10 - 3]"
  proof -
    have "localize_drone_enhanced
            (Some [(sqrt 5 / 2 - sqrt 2) / 343, (sqrt 5 / 2 - sqrt 2) / 343])
            MIC_POSITIONS SOUND_SPEED = Inr [sqrt 10 - 3, sqrt 10 - 3]"
      using sqrt10_bounds by (intro localize_in_bounds solve_source) (simp_all add: len)
    then show ?thesis by (simp only: analytic_tdoas_source)
  qed
  have "distance (sqrt 10 - 3, sqrt 10 - 3) (1, 1) = sqrt (2 * (4 - sqrt 10)^2)"
    by (simp add: distance_def power2_eq_square algebra_simps)
  also have "\<dots> = sqrt 2 * \<bar>4 - sqrt 10\<bar>"
    by (simp only: real_sqrt_mult real_sqrt_abs)
  also have "\<dots> = sqrt 2 * (4 - sqrt 10)"
    using sqrt10_bounds by simp
  finally have eq: "distance (sqrt 10 - 3, sqrt 10 - 3) (1, 1) = sqrt 2 * (4 - sqrt 10)" .
  have "7/5 * (4/5) < sqrt 2 * (4 - sqrt 10)"
    using sqrt2_lower sqrt10_bounds by (intro mult_strict_mono) simp_all
  then have "1 < sqrt 2 * (4 - sqrt 10)" by simp
  with eq loc show ?thesis by simp
qed

text \<open>
  Claim C3, as stated, fails in its second half. With the microphones at (0,0), (2,0),
  (0,2), the delays (1, 1) solve far outside the box and the delays (0, 0) solve to the
  point (1, 1) itself; the solver returns the same value for both, so nothing in the
  result tells the substituted default from a solved position.
\<close>

theorem clamped_position_not_flagged:
  "fst (solve_position [1, 1] wide_array 343) < -10
   \<and> solve_position [0, 0] wide_array 343 = (1, 1)
   \<and> localize_drone_enhanced (Some [1, 1]) wide_array 343
       = localize_drone_enhanced (Some [0, 0]) wide_array 343"
  by (simp add: localize_drone_enhanced_def solve_position_def linear_row_def linear_rhs_def
      lstsq2_def wide_array_def Let_def)

text \<open>
  Claim C3, amended. For two delays and at least three microphones, whenever a
  coordinate of the least-squares solution lies outside \<open>[-10, 10]\<close>, the solver returns
  the point \<open>[1.0, 1.0]\<close> and no error, in place of the solution. The result has no
  flag.
\<close>

theorem out_of_bounds_returns_default:
  assumes "length ts = 2" "3 \<le> length mic_positions"
    and "fst (solve_position ts mic_positions c) < -10
         \<or> fst (solve_position ts mic_positions c) > 10
         \<or> snd (solve_position ts mic_positions c) < -10
         \<or> snd (solve_position ts mic_positions c) > 10"
  shows "localize_drone_enhanced (Some ts) mic_positions c = Inr [1, 1]"
  using assms by (auto simp: localize_drone_enhanced_def Let_def)

theorem out_of_bounds_returns_default_witness:
  "length [1, 1 :: real] = 2 \<and> 3 \<le> length MIC_POSITIONS
   \<and> fst (solve_position [1, 1] MIC_POSITIONS SOUND_SPEED) < -10
   \<and> localize_drone_enhanced (Some [1, 1]) MIC_POSITIONS SOUND_SPEED = Inr [1, 1]"
proof -
  have a: "length [1, 1 :: real] = 2" by simp
  have b: "3 \<le> length MIC_POSITIONS" by (simp add: MIC_POSITIONS_def)
  have c: "fst (solve_position [1, 1] MIC_POSITIONS SOUND_SPEED) < -10"
    by (simp add: solve_position_def linear_row_def linear_rhs_def lstsq2_def
        MIC_POSITIONS_def SOUND_SPEED_def Let_def power2_eq_square)
  then have d: "fst (solve_position [1, 1] MIC_POSITIONS SOUND_SPEED) < -10
         \<or> fst (solve_position [1, 1] MIC_POSITIONS SOUND_SPEED) > 10
         \<or> snd (solve_position [1, 1] MIC_POSITIONS SOUND_SPEED) < -10
         \<or> snd (solve_position [1, 1] MIC_POSITIONS SOUND_SPEED) > 10"
    by simp
  from out_of_bounds_returns_default[OF a b d] a b c show ?thesis by simp
qed

section \<open>Properties of the delay estimator\<close>

subsection \<open>The index of the largest entry\<close>

lemma argmax_bound: "xs \<noteq> [] \<Longrightarrow> argmax xs < length xs"
  by (induction xs rule: argmax.induct) (auto simp: Let_def)

lemma argmax_ge: "j < length xs \<Longrightarrow> xs ! j \<le> xs ! argmax xs"
proof (induction xs arbitrary: j rule: argmax.induct)
  case 1
  then show ?case by simp
next
  case (2 x)
  then show ?case by simp
next
  case (3 x y ys)
  show ?case
  proof (cases j)
    case 0
    then show ?thesis by (auto simp: Let_def)
  next
    case (Suc j')
    with "3.prems" have "j' < length (y # ys)" by simp
    from "3.IH"[OF this] have "(y # ys) ! j' \<le> (y # ys) ! argmax (y # ys)" .
    with Suc show ?thesis by (auto simp: Let_def)
  qed
qed

lemma argmax_first: "j < argmax xs \<Longrightarrow> xs ! j < xs ! argmax xs"
proof (induction xs arbitrary: j rule: argmax.induct)
  case 1
  then show ?case by simp
next
  case (2 x)
  then show ?case by simp
next
  case (3 x y ys)
  from "3.prems" have nz: "\<not> x \<ge> (y # ys) ! argmax (y # ys)"
    and am: "argmax (x # y # ys) = Suc (argmax (y # ys))"
    by (auto simp: Let_def split: if_splits)
  show ?case
  proof (cases j)
    case 0
    with nz am show ?thesis by simp
  next
    case (Suc j')
    with "3.prems" am have "j' < argmax (y # ys)" by simp
    from "3.IH"[OF this] Suc am show ?thesis by simp
  qed
qed

lemma argmax_eqI:
  assumes "k < length xs" "\<forall>j<k. xs ! j < xs ! k" "\<forall>j<length xs. xs ! j \<le> xs ! k"
  shows "argmax xs = k"
proof -
  from assms(1) have ne: "xs \<noteq> []" by auto
  have b: "argmax xs < length xs" using ne by (rule argmax_bound)
  have "\<not> argmax xs < k"
  proof
    assume "argmax xs < k"
    with assms(2) have "xs ! argmax xs < xs ! k" by simp
    moreover have "xs ! k \<le> xs ! argmax xs" using assms(1) by (rule argmax_ge)
    ultimately show False by simp
  qed
  moreover have "\<not> k < argmax xs"
  proof
    assume "k < argmax xs"
    then have "xs ! k < xs ! argmax xs" by (rule argmax_first)
    moreover have "xs ! argmax xs \<le> xs ! k" using assms(3) b by simp
    ultimately show False by simp
  qed
  ultimately show ?thesis by simp
qed

subsection \<open>The peak of the recording\<close>

lemma fold_max_ge: "(a::real) \<le> fold max ys a"
  by (induction ys arbitrary: a) (auto intro: order_trans[OF max.cobounded2])

lemma fold_max_mem: "(v::real) \<in> set ys \<Longrightarrow> v \<le> fold max ys a"
proof (induction ys arbitrary: a)
  case Nil
  then show ?case by simp
next
  case (Cons y ys)
  show ?case
  proof (cases "v = y")
    case True
    have "y \<le> max y a" by simp
    also have "\<dots> \<le> fold max ys (max y a)" by (rule fold_max_ge)
    finally show ?thesis using True by simp
  next
    case False
    with Cons.prems have "v \<in> set ys" by simp
    then show ?thesis using Cons.IH by simp
  qed
qed

lemma max_abs_ge: "v \<in> set xs \<Longrightarrow> \<bar>v\<bar> \<le> max_abs xs"
  unfolding max_abs_def by (rule fold_max_mem) simp

lemma max_abs_pos: "v \<in> set xs \<Longrightarrow> v \<noteq> 0 \<Longrightarrow> 0 < max_abs xs"
  using max_abs_ge[of v xs] by simp

subsection \<open>The correlation of a channel with itself\<close>

text \<open>
  Entry \<open>len - 1 + k\<close> and entry \<open>len - 1 - k\<close> of the correlation of a channel with
  itself are both the autocorrelation at lag \<open>k\<close>. At a lag other than zero its
  magnitude is strictly below the energy of the channel, unless the channel is zero: so
  the first largest magnitude sits at index \<open>len - 1\<close>, its two neighbours are equal,
  and the parabolic offset is zero.
\<close>

lemma sum_list_upt: "sum_list (map f [0..<n]) = (\<Sum>m = 0..<n. f m)"
  by (simp add: interv_sum_list_conv_sum_set_nat)

lemma correlate_nth:
  "j < length a + length v - 1 \<Longrightarrow>
   correlate a v ! j = (\<Sum>n = 0..<length v.
      (let i = int n + int j - (int (length v) - 1)
       in if 0 \<le> i \<and> i < int (length a) then a ! nat i * v ! n else 0))"
  by (simp add: correlate_def sum_list_upt)

lemma length_correlate: "length (correlate a v) = length a + length v - 1"
  by (simp add: correlate_def)

lemma corr_right:
  assumes "k < length u"
  shows "correlate u u ! (length u - 1 + k) = acorr u k"
proof -
  have j: "length u - 1 + k < length u + length u - 1" using assms by simp
  show ?thesis
    unfolding correlate_nth[OF j] acorr_def
  proof (rule sum.cong[OF refl])
    fix m assume "m \<in> {0..<length u}"
    then have m: "m < length u" by simp
    have i: "int m + int (length u - 1 + k) - (int (length u) - 1) = int (m + k)"
      using assms by simp
    show "(let i = int m + int (length u - 1 + k) - (int (length u) - 1)
           in if 0 \<le> i \<and> i < int (length u) then u ! nat i * u ! m else 0)
          = padded u (m + k) * padded u m"
      unfolding i Let_def using m by (simp add: padded_def nat_int_add)
  qed
qed

lemma corr_left:
  assumes "k < length u"
  shows "correlate u u ! (length u - 1 - k) = acorr u k"
proof -
  let ?n = "length u"
  have j: "?n - 1 - k < ?n + ?n - 1" using assms by simp
  have "correlate u u ! (?n - 1 - k) = (\<Sum>m = 0..<?n. if k \<le> m then u ! (m - k) * u ! m else 0)"
    unfolding correlate_nth[OF j]
  proof (rule sum.cong[OF refl])
    fix m assume "m \<in> {0..<?n}"
    then have m: "m < ?n" by simp
    have i: "int m + int (?n - 1 - k) - (int ?n - 1) = int m - int k"
      using assms by simp
    show "(let i = int m + int (?n - 1 - k) - (int ?n - 1)
           in if 0 \<le> i \<and> i < int ?n then u ! nat i * u ! m else 0)
          = (if k \<le> m then u ! (m - k) * u ! m else 0)"
      unfolding i Let_def using m by (auto simp: nat_diff_distrib')
  qed
  also have "\<dots> = (\<Sum>m = k..<?n. u ! (m - k) * u ! m)"
  proof -
    have "(\<Sum>m = 0..<?n. if k \<le> m then u ! (m - k) * u ! m else 0)
        = (\<Sum>m \<in> {m \<in> {0..<?n}. k \<le> m}. u ! (m - k) * u ! m)"
      by (rule sum.inter_filter[symmetric]) simp
    moreover have "{m \<in> {0..<?n}. k \<le> m} = {k..<?n}" by auto
    ultimately show ?thesis by simp
  qed
  also have "\<dots> = (\<Sum>i = 0..<?n - k. u ! i * u ! (i + k))"
  proof -
    have "(\<Sum>m = 0 + k..<(?n - k) + k. u ! (m - k) * u ! m) = (\<Sum>i = 0..<?n - k. u ! (i + k - k) * u ! (i + k))"
      by (rule sum.shift_bounds_nat_ivl)
    then show ?thesis using assms by simp
  qed
  also have "\<dots> = (\<Sum>i = 0..<?n - k. padded u (i + k) * padded u i)"
    by (rule sum.cong) (auto simp: padded_def)
  also have "\<dots> = (\<Sum>i = 0..<?n. padded u (i + k) * padded u i)"
    by (rule sum.mono_neutral_left) (auto simp: padded_def)
  finally show ?thesis by (simp add: acorr_def)
qed

lemma shifted_energy_le:
  "(\<Sum>m = 0..<length u. (padded u (m + k))^2) \<le> (\<Sum>m = 0..<length u. (padded u m)^2)"
proof -
  let ?n = "length u"
  have "(\<Sum>m = 0..<?n. (padded u (m + k))^2) = (\<Sum>i = 0 + k..<?n + k. (padded u i)^2)"
    by (rule sum.shift_bounds_nat_ivl[symmetric])
  also have "\<dots> \<le> (\<Sum>i = 0..<?n + k. (padded u i)^2)"
    by (rule sum_mono2) auto
  also have "\<dots> = (\<Sum>i = 0..<?n. (padded u i)^2)"
    by (rule sum.mono_neutral_right) (auto simp: padded_def)
  finally show ?thesis .
qed

lemma acorr_zero: "acorr u 0 = (\<Sum>m = 0..<length u. (padded u m)^2)"
  by (simp add: acorr_def power2_eq_square)

lemma square_sum_expand:
  fixes s :: real
  assumes "s * s = 1"
  shows "(\<Sum>m = 0..<length u. (padded u (m + k) - s * padded u m)^2)
       = (\<Sum>m = 0..<length u. (padded u (m + k))^2) - 2 * s * acorr u k + acorr u 0"
proof -
  have "\<And>a b::real. (a - s * b)^2 = a^2 - 2 * s * (a * b) + b^2"
  proof -
    fix a b :: real
    have "(a - s * b)^2 = a^2 - 2 * s * (a * b) + (s * s) * b^2"
      by (simp add: power2_eq_square algebra_simps)
    then show "(a - s * b)^2 = a^2 - 2 * s * (a * b) + b^2" using assms by simp
  qed
  then have "(\<Sum>m = 0..<length u. (padded u (m + k) - s * padded u m)^2)
     = (\<Sum>m = 0..<length u. (padded u (m + k))^2 - 2 * s * (padded u (m + k) * padded u m) + (padded u m)^2)"
    by simp
  also have "\<dots> = (\<Sum>m = 0..<length u. (padded u (m + k))^2) - 2 * s * acorr u k + acorr u 0"
    by (simp add: sum.distrib sum_subtractf sum_distrib_left acorr_def power2_eq_square)
  finally show ?thesis .
qed

lemma periodic_zero:
  fixes s :: real
  assumes "0 < k" "s * s = 1" "\<forall>m<length u. padded u (m + k) = s * padded u m"
  shows "padded u m = 0"
proof (induction m rule: measure_induct_rule[where f = "\<lambda>m. length u - m"])
  case (less m)
  show ?case
  proof (cases "m < length u")
    case False
    then show ?thesis by (simp add: padded_def)
  next
    case True
    with assms(1) have "length u - (m + k) < length u - m" by simp
    then have "padded u (m + k) = 0" by (rule less.IH)
    with assms(3) True have "s * padded u m = 0" by simp
    moreover from assms(2) have "s \<noteq> 0" by auto
    ultimately show ?thesis by simp
  qed
qed

lemma acorr_strict:
  assumes nz: "\<exists>v\<in>set u. v \<noteq> 0" and k: "0 < k"
  shows "\<bar>acorr u k\<bar> < acorr u 0"
proof (rule ccontr)
  assume "\<not> \<bar>acorr u k\<bar> < acorr u 0"
  then have ge: "acorr u 0 \<le> \<bar>acorr u k\<bar>" by simp
  define s :: real where "s = (if 0 \<le> acorr u k then 1 else -1)"
  have ss: "s * s = 1" by (simp add: s_def)
  have sS: "s * acorr u k = \<bar>acorr u k\<bar>" by (simp add: s_def)
  let ?Q = "\<Sum>m = 0..<length u. (padded u (m + k) - s * padded u m)^2"
  have "?Q = (\<Sum>m = 0..<length u. (padded u (m + k))^2) - 2 * s * acorr u k + acorr u 0"
    using ss by (rule square_sum_expand)
  also have "\<dots> \<le> acorr u 0 - 2 * \<bar>acorr u k\<bar> + acorr u 0"
    using shifted_energy_le[of u k] sS by (simp add: acorr_zero mult.assoc)
  also have "\<dots> \<le> 0" using ge by simp
  finally have "?Q \<le> 0" .
  moreover have "0 \<le> ?Q" by (rule sum_nonneg) simp
  ultimately have "?Q = 0" by simp
  then have "\<forall>m\<in>{0..<length u}. (padded u (m + k) - s * padded u m)^2 = 0"
    by (subst (asm) sum_nonneg_eq_0_iff) auto
  then have per: "\<forall>m<length u. padded u (m + k) = s * padded u m" by simp
  from nz obtain i where i: "i < length u" "u ! i \<noteq> 0" by (auto simp: in_set_conv_nth)
  have "padded u i = 0" using k ss per by (rule periodic_zero)
  with i show False by (simp add: padded_def)
qed

lemma autocorr_argmax:
  assumes nz: "\<exists>v\<in>set u. v \<noteq> 0"
  shows "argmax (map abs (correlate u u)) = length u - 1"
proof (rule argmax_eqI)
  let ?n = "length u"
  from nz have n: "0 < ?n" by auto
  have len: "length (map abs (correlate u u)) = ?n + ?n - 1" by (simp add: length_correlate)
  show "?n - 1 < length (map abs (correlate u u))" using n unfolding len by arith
  have peak: "correlate u u ! (?n - 1) = acorr u 0"
    using corr_right[of 0 u] n by simp
  have other: "\<bar>correlate u u ! j\<bar> < acorr u 0" if "j < ?n + ?n - 1" "j \<noteq> ?n - 1" for j
  proof (cases "j < ?n - 1")
    case True
    define k where "k = ?n - 1 - j"
    have "0 < k" "k < ?n" "j = ?n - 1 - k" using True by (simp_all add: k_def)
    then show ?thesis using corr_left[of k u] acorr_strict[OF nz, of k] by simp
  next
    case False
    define k where "k = j - (?n - 1)"
    have "0 < k" "k < ?n" "j = ?n - 1 + k" using False that by (simp_all add: k_def)
    then show ?thesis using corr_right[of k u] acorr_strict[OF nz, of k] by simp
  qed
  have pos: "0 \<le> acorr u 0" unfolding acorr_zero by (rule sum_nonneg) simp
  show "\<forall>j<?n - 1. map abs (correlate u u) ! j < map abs (correlate u u) ! (?n - 1)"
  proof (intro allI impI)
    fix j assume "j < ?n - 1"
    then have "j < ?n + ?n - 1" "j \<noteq> ?n - 1" by simp_all
    from other[OF this] peak pos n \<open>j < ?n - 1\<close> show "map abs (correlate u u) ! j < map abs (correlate u u) ! (?n - 1)"
      by (simp add: length_correlate)
  qed
  show "\<forall>j<length (map abs (correlate u u)). map abs (correlate u u) ! j \<le> map abs (correlate u u) ! (?n - 1)"
  proof (intro allI impI)
    fix j assume j: "j < length (map abs (correlate u u))"
    then have j': "j < ?n + ?n - 1" by (simp add: length_correlate)
    show "map abs (correlate u u) ! j \<le> map abs (correlate u u) ! (?n - 1)"
    proof (cases "j = ?n - 1")
      case True
      then show ?thesis by simp
    next
      case False
      from other[OF j' False] peak pos n j' show ?thesis
        by (simp add: length_correlate)
    qed
  qed
qed

lemma refined_tdoa_identical:
  assumes nz: "\<exists>v\<in>set u. v \<noteq> 0"
  shows "refined_tdoa u u sr = 0"
proof -
  let ?n = "length u"
  let ?c = "correlate u u"
  from nz have n: "0 < ?n" by auto
  have am: "argmax (map abs ?c) = ?n - 1" using nz by (rule autocorr_argmax)
  have "refine_peak ?c (?n - 1) = real (?n - 1)"
  proof (cases "2 \<le> ?n")
    case False
    with n have "?n = 1" by arith
    then show ?thesis by (simp add: refine_peak_def)
  next
    case True
    have "?c ! (?n - 1 - 1) = acorr u 1" using True by (intro corr_left) simp
    moreover have "?c ! (?n - 1 + 1) = acorr u 1" using True by (intro corr_right) simp
    ultimately have "?c ! (?n - 1 + 1) - ?c ! (?n - 1 - 1) = 0" by simp
    then show ?thesis by (simp add: refine_peak_def Let_def)
  qed
  then show ?thesis
    using n by (simp add: refined_tdoa_def Let_def am of_nat_diff)
qed

text \<open>
  The refinement divides by \<open>2 * (2 * y2 - y1 - y3)\<close>. At the index that \<open>np.argmax\<close>
  returns for the magnitudes, this divisor is not zero, so the division of the model
  and the division of the source agree.
\<close>

lemma refine_divisor_nonzero:
  assumes "0 < argmax (map abs c)" "argmax (map abs c) + 1 < length c"
  shows "2 * (2 * c ! argmax (map abs c) - c ! (argmax (map abs c) - 1)
              - c ! (argmax (map abs c) + 1)) \<noteq> 0"
proof -
  let ?k = "argmax (map abs c)"
  have k: "?k < length c" using assms(2) by simp
  have "map abs c ! (?k - 1) < map abs c ! ?k"
    using assms(1) by (intro argmax_first) simp
  then have l: "\<bar>c ! (?k - 1)\<bar> < \<bar>c ! ?k\<bar>" using k by simp
  have "map abs c ! (?k + 1) \<le> map abs c ! ?k"
    using assms(2) by (intro argmax_ge) simp
  then have r: "\<bar>c ! (?k + 1)\<bar> \<le> \<bar>c ! ?k\<bar>" using k assms(2) by simp
  show ?thesis
  proof
    assume "2 * (2 * c ! ?k - c ! (?k - 1) - c ! (?k + 1)) = 0"
    then have "2 * c ! ?k = c ! (?k - 1) + c ! (?k + 1)" by simp
    then have "2 * \<bar>c ! ?k\<bar> = \<bar>c ! (?k - 1) + c ! (?k + 1)\<bar>" by (simp add: abs_mult[symmetric])
    also have "\<dots> \<le> \<bar>c ! (?k - 1)\<bar> + \<bar>c ! (?k + 1)\<bar>" by (rule abs_triangle_ineq)
    finally show False using l r by simp
  qed
qed

subsection \<open>The validated delays\<close>

lemma validate_tdoa_bound: "\<bar>validate_tdoa t\<bar> \<le> max_physical_delay"
  by (simp add: validate_tdoa_def max_physical_delay_def)

lemma calculate_tdoa_raw:
  assumes "calculate_tdoa_enhanced (Multi chans) sr = Inr ts"
  shows "ts = [validate_tdoa (raw_tdoa chans sr 1), validate_tdoa (raw_tdoa chans sr 2)]"
  using assms
  by (auto simp: calculate_tdoa_enhanced_def raw_tdoa_def Let_def upt_conv_Cons
      numeral_2_eq_2 split: if_splits)

lemma calculate_tdoa_returns:
  assumes "3 \<le> length chans" "concat chans \<noteq> []"
  shows "\<exists>ts. calculate_tdoa_enhanced (Multi chans) sr = Inr ts"
  using assms by (auto simp: calculate_tdoa_enhanced_def Let_def)

lemma raw_one_second_lag:
  "raw_tdoa [[1, 0], [0, 1], [0, 1]] 1 1 = -1 \<and> raw_tdoa [[1, 0], [0, 1], [0, 1]] 1 2 = -1"
  by (simp add: raw_tdoa_def Let_def max_abs_def upt_conv_Cons refined_tdoa_def
      correlate_def refine_peak_def)

text \<open>
  Claim C7. For a positive sample rate, whenever \<open>calculate_tdoa_enhanced\<close> returns a
  vector, the recording is an array of channels and the vector has one entry for channel
  1 and one for channel 2: the entry is exactly 0 when the magnitude of the refined delay
  of that channel exceeds \<open>2 / 343\<close> seconds, and it is the refined delay itself
  otherwise. So every returned delay has a magnitude of at most \<open>2 / 343\<close> seconds or is
  0. The witness is a recording at 1 Hz whose channels 1 and 2 lag the reference by one
  sample, a refined delay of one second: both delays are returned as 0.
\<close>

theorem tdoa_within_physical_bound:
  assumes "0 < sr" and "calculate_tdoa_enhanced audio_data sr = Inr tdoas"
  shows "\<exists>chans. audio_data = Multi chans
           \<and> tdoas = [if \<bar>raw_tdoa chans sr 1\<bar> > 2 / 343 then 0 else raw_tdoa chans sr 1,
                      if \<bar>raw_tdoa chans sr 2\<bar> > 2 / 343 then 0 else raw_tdoa chans sr 2]
           \<and> (\<forall>t\<in>set tdoas. \<bar>t\<bar> \<le> 2 / 343 \<or> t = 0)"
proof (cases audio_data)
  case (Mono ys)
  with assms(2) show ?thesis by (simp add: calculate_tdoa_enhanced_def)
next
  case (Multi chans)
  with assms(2) have "calculate_tdoa_enhanced (Multi chans) sr = Inr tdoas" by simp
  then have "tdoas = [validate_tdoa (raw_tdoa chans sr 1), validate_tdoa (raw_tdoa chans sr 2)]"
    by (rule calculate_tdoa_raw)
  then have ts: "tdoas = [if \<bar>raw_tdoa chans sr 1\<bar> > 2 / 343 then 0 else raw_tdoa chans sr 1,
                      if \<bar>raw_tdoa chans sr 2\<bar> > 2 / 343 then 0 else raw_tdoa chans sr 2]"
    by (simp add: validate_tdoa_def max_physical_delay_def)
  then have "\<forall>t\<in>set tdoas. \<bar>t\<bar> \<le> 2 / 343 \<or> t = 0" by auto
  with Multi ts show ?thesis by blast
qed

theorem tdoa_within_physical_bound_witness:
  "(0::nat) < 1
   \<and> raw_tdoa [[1, 0], [0, 1], [0, 1]] 1 1 = -1
   \<and> raw_tdoa [[1, 0], [0, 1], [0, 1]] 1 2 = -1
   \<and> calculate_tdoa_enhanced (Multi [[1, 0], [0, 1], [0, 1]]) 1 = Inr [0, 0]"
proof -
  have a: "(0::nat) < 1" by simp
  have "\<exists>ts. calculate_tdoa_enhanced (Multi [[1, 0], [0, 1], [0, 1]]) 1 = Inr ts"
    by (rule calculate_tdoa_returns) simp_all
  then obtain ts where
    b: "calculate_tdoa_enhanced (Multi [[1, 0], [0, 1], [0, 1]]) 1 = Inr ts"
    by blast
  from tdoa_within_physical_bound[OF a b] raw_one_second_lag
  have "ts = [0, 0]" by simp
  with a b raw_one_second_lag show ?thesis by simp
qed

text \<open>
  Claim C8. For a positive sample rate and a recording of at least three channels that
  are all the same channel, not zero everywhere, both returned delays are exactly 0.
\<close>

theorem identical_channels_zero_tdoa:
  assumes "0 < sr" "3 \<le> length chans" "\<forall>c\<in>set chans. c = x" "\<exists>v\<in>set x. v \<noteq> 0"
  shows "calculate_tdoa_enhanced (Multi chans) sr = Inr [0, 0]"
proof -
  from assms(2) have "0 < length chans" by arith
  then have "chans ! 0 \<in> set chans" by (rule nth_mem)
  with assms(3) have c0: "chans ! 0 = x" by simp
  have ci: "chans ! i = x" if "i < 3" for i
    using assms(2,3) that by (metis nth_mem less_le_trans)
  from assms(4) obtain v where v: "v \<in> set x" "v \<noteq> 0" by blast
  have "x \<in> set chans" using c0 \<open>chans ! 0 \<in> set chans\<close> by simp
  with v have vin: "v \<in> set (concat chans)" by auto
  have ne: "concat chans \<noteq> []"
  proof
    assume "concat chans = []"
    with vin show False by simp
  qed
  have pk: "0 < max_abs (concat chans)" using vin v(2) by (rule max_abs_pos)
  define u where "u = map (\<lambda>v. v / max_abs (concat chans)) x"
  have unz: "\<exists>w\<in>set u. w \<noteq> 0" using v pk by (auto simp: u_def)
  have norm: "map (map (\<lambda>v. v / max_abs (concat chans))) chans ! i = u" if "i < 3" for i
    using assms(2) that ci[OF that] by (simp add: u_def)
  have "calculate_tdoa_enhanced (Multi chans) sr =
      Inr (map (\<lambda>i. validate_tdoa
                  (refined_tdoa (map (map (\<lambda>v. v / max_abs (concat chans))) chans ! 0)
                     (map (map (\<lambda>v. v / max_abs (concat chans))) chans ! i) sr)) [1..<3])"
    using assms(2) ne pk by (simp add: calculate_tdoa_enhanced_def Let_def)
  also have "\<dots> = Inr (map (\<lambda>i. validate_tdoa (refined_tdoa u u sr)) [1..<3])"
    using norm by (simp add: upt_conv_Cons)
  also have "\<dots> = Inr [0, 0]"
    by (simp add: refined_tdoa_identical[OF unz] validate_tdoa_def max_physical_delay_def
        upt_conv_Cons)
  finally show ?thesis .
qed

theorem identical_channels_zero_tdoa_witness:
  "(0::nat) < 22050 \<and> 3 \<le> length [[1, -2, 3], [1, -2, 3], [1, -2, 3 :: real]]
   \<and> set [[1, -2, 3], [1, -2, 3], [1, -2, 3 :: real]] = {[1, -2, 3]}
   \<and> (\<exists>v\<in>set [1, -2, 3 :: real]. v \<noteq> 0)
   \<and> calculate_tdoa_enhanced (Multi [[1, -2, 3], [1, -2, 3], [1, -2, 3]]) 22050 = Inr [0, 0]"
proof -
  have a: "(0::nat) < 22050" by simp
  have b: "3 \<le> length [[1, -2, 3], [1, -2, 3], [1, -2, 3 :: real]]" by simp
  have c: "\<forall>c\<in>set [[1, -2, 3], [1, -2, 3], [1, -2, 3 :: real]]. c = [1, -2, 3]" by simp
  have d: "\<exists>v\<in>set [1, -2, 3 :: real]. v \<noteq> 0" by simp
  have e: "set [[1, -2, 3], [1, -2, 3], [1, -2, 3 :: real]] = {[1, -2, 3]}" by simp
  from identical_channels_zero_tdoa[OF a b c d] a b d e show ?thesis by blast
qed

text \<open>
  Claim C9, as stated, fails. A recording of four channels yields two delays, not three.
\<close>

theorem four_channels_two_delays:
  "calculate_tdoa_enhanced (Multi [[1], [1], [1], [1]]) 1 = Inr [0, 0]
   \<and> length [0, 0 :: real] \<noteq> length [[1], [1], [1], [1 :: real]] - 1"
  by (simp add: calculate_tdoa_enhanced_def Let_def max_abs_def upt_conv_Cons refined_tdoa_def
      correlate_def refine_peak_def validate_tdoa_def max_physical_delay_def)

text \<open>
  Claim C9, amended. For a recording with at least three channels and at least one frame
  the estimator returns exactly two delays, for the channels 1 and 2 against channel 0;
  further channels are not read. A recording with fewer than three channels, or a
  one-dimensional recording, yields the insufficient-channels error.
\<close>

theorem tdoa_vector_length:
  "(3 \<le> length chans \<and> concat chans \<noteq> [] \<longrightarrow>
      (\<exists>ts. calculate_tdoa_enhanced (Multi chans) sr = Inr ts \<and> length ts = 2))
   \<and> (length chans < 3 \<longrightarrow>
        calculate_tdoa_enhanced (Multi chans) sr = Inl (InsufficientChannels (length chans)))
   \<and> calculate_tdoa_enhanced (Mono ys) sr = Inl (InsufficientChannels 1)"
  by (auto simp: calculate_tdoa_enhanced_def Let_def)

theorem tdoa_vector_length_witness:
  "3 \<le> length [[1], [2], [3], [4 :: real]] \<and> concat [[1], [2], [3], [4 :: real]] \<noteq> []
   \<and> (\<exists>ts. calculate_tdoa_enhanced (Multi [[1], [2], [3], [4]]) 1 = Inr ts \<and> length ts = 2)
   \<and> length [[1], [2 :: real]] < 3
   \<and> calculate_tdoa_enhanced (Multi [[1], [2]]) 1 = Inl (InsufficientChannels 2)"
  using tdoa_vector_length[of "[[1], [2], [3], [4]]" 1 "[]"]
        tdoa_vector_length[of "[[1], [2]]" 1 "[]"]
  by simp

section \<open>Properties of the feature extractor\<close>

subsection \<open>Shapes\<close>

lemma ncols_Cons [simp]: "ncols (r # m) = length r"
  by (simp add: ncols_def)

lemma ncols_map: "m \<noteq> [] \<Longrightarrow> ncols (map f m) = length (f (hd m))"
  by (cases m) simp_all

lemma ncols_hd: "m \<noteq> [] \<Longrightarrow> ncols m = length (hd m)"
  by (cases m) simp_all

lemma rect_row: "rect m \<Longrightarrow> r \<in> set m \<Longrightarrow> length r = ncols m"
  by (simp add: rect_def)

lemma length_create_mel_filterbank: "length (create_mel_filterbank sr k b) = k"
  by (simp add: create_mel_filterbank_def Let_def)

lemma row_create_mel_filterbank:
  "r \<in> set (create_mel_filterbank sr k b) \<Longrightarrow> length r = b"
  by (auto simp: create_mel_filterbank_def Let_def split: if_splits)

lemma length_matmul: "length (matmul A B) = length A"
  by (simp add: matmul_def)

lemma row_matmul: "r \<in> set (matmul A B) \<Longrightarrow> length r = ncols B"
  by (auto simp: matmul_def)

lemma length_linear_to_mel: "length (linear_to_mel S sr k) = k"
  by (simp add: linear_to_mel_def length_matmul length_create_mel_filterbank)

lemma row_linear_to_mel: "r \<in> set (linear_to_mel S sr k) \<Longrightarrow> length r = ncols S"
  unfolding linear_to_mel_def by (rule row_matmul)

lemma length_to_db: "length (to_db m) = length m"
  by (simp add: to_db_def)

lemma row_to_db: "r \<in> set (to_db m) \<Longrightarrow> \<exists>r'\<in>set m. length r = length r'"
  by (auto simp: to_db_def)

lemma length_normalize: "length (normalize_features m) = length m"
  by (simp add: normalize_features_def Let_def)

lemma row_normalize: "r \<in> set (normalize_features m) \<Longrightarrow> \<exists>r'\<in>set m. length r = length r'"
  by (auto simp: normalize_features_def Let_def)

lemma has_shape_ncols: "has_shape m rows cols \<Longrightarrow> 0 < rows \<Longrightarrow> ncols m = cols"
  by (cases m) (auto simp: has_shape_def)

lemma mel_db_shape:
  "has_shape (to_db (linear_to_mel S sr k)) k (ncols S)"
  unfolding has_shape_def
  using row_to_db row_linear_to_mel
  by (fastforce simp: length_to_db length_linear_to_mel)

lemma normalize_shape: "has_shape m rows cols \<Longrightarrow> has_shape (normalize_features m) rows cols"
  unfolding has_shape_def using row_normalize by (fastforce simp: length_normalize)

lemma length_concat_replicate: "length (concat (replicate p xs)) = p * length xs"
  by (induction p) simp_all

lemma pad_row_length:
  assumes "0 < length row"
  shows "length (row @ concat (replicate p (drop (length row - 1) row))) = length row + p"
proof -
  have "length (drop (length row - 1) row) = length row - (length row - 1)" by simp
  also have "\<dots> = 1" using assms by arith
  finally have l1: "length (drop (length row - 1) row) = 1" .
  show ?thesis by (simp only: length_append length_concat_replicate l1 mult_1_right)
qed

lemma resize_to_target_shape:
  assumes m: "has_shape m rows c" "0 < rows" "0 < c"
    and z: "c \<noteq> t \<longrightarrow> (\<exists>z zc. zoom m (1, real t / real c) = Inr z \<and> has_shape z rows zc \<and> 0 < zc)"
  shows "\<exists>m'. resize_to_target zoom m t = Inr m' \<and> has_shape m' rows t"
proof (cases "c = t")
  case True
  with m show ?thesis by (auto simp: resize_to_target_def Let_def has_shape_ncols)
next
  case False
  with z obtain z zc where zz: "zoom m (1, real t / real c) = Inr z" "has_shape z rows zc" "0 < zc"
    by blast
  have nc: "ncols m = c" using m by (simp add: has_shape_ncols)
  have nz: "ncols z = zc" using zz m(2) by (simp add: has_shape_ncols)
  consider "zc > t" | "zc < t" | "zc = t" by arith
  then show ?thesis
  proof cases
    case 1
    have "resize_to_target zoom m t = Inr (map (take t) z)"
      using False nc nz zz(1) m(3) 1 by (simp add: resize_to_target_def Let_def)
    moreover have "has_shape (map (take t) z) rows t"
      using zz(2) 1 by (auto simp: has_shape_def)
    ultimately show ?thesis by blast
  next
    case 2
    have "resize_to_target zoom m t =
        Inr (map (\<lambda>row. row @ concat (replicate (t - zc) (drop (length row - 1) row))) z)"
      using False nc nz zz(1) m(3) 2 by (simp add: resize_to_target_def Let_def)
    moreover have "has_shape (map (\<lambda>row. row @ concat (replicate (t - zc) (drop (length row - 1) row))) z) rows t"
      unfolding has_shape_def
    proof (intro conjI ballI)
      show "length (map (\<lambda>row. row @ concat (replicate (t - zc) (drop (length row - 1) row))) z) = rows"
        using zz(2) by (simp add: has_shape_def)
      fix r assume "r \<in> set (map (\<lambda>row. row @ concat (replicate (t - zc) (drop (length row - 1) row))) z)"
      then obtain row where row: "row \<in> set z" "r = row @ concat (replicate (t - zc) (drop (length row - 1) row))"
        by auto
      then have "length row = zc" using zz(2) by (simp add: has_shape_def)
      with zz(3) have "length (row @ concat (replicate (t - zc) (drop (length row - 1) row))) = zc + (t - zc)"
        using pad_row_length[of row "t - zc"] by simp
      with row(2) 2 show "length r = t" by simp
    qed
    ultimately show ?thesis by blast
  next
    case 3
    have "resize_to_target zoom m t = Inr z"
      using False nc nz zz(1) m(3) 3 by (simp add: resize_to_target_def Let_def)
    with zz(2) 3 show ?thesis by simp
  qed
qed

lemma resized_mel_db_eq:
  assumes spec: "spectrogram (preprocess_audio y sr) sr n_fft (n_fft - hop_length) = Inr Sxx"
    and res: "resize_to_target zoom (to_db (linear_to_mel Sxx sr n_mels)) expected_time_frames
                = Inr m'"
  shows "resized_mel_db spectrogram zoom y sr = Inr m'"
proof -
  let ?db = "to_db (linear_to_mel Sxx sr n_mels)"
  have pos: "0 < n_mels" by (simp add: n_mels_def)
  have nc: "ncols ?db = ncols Sxx" using mel_db_shape pos by (rule has_shape_ncols)
  show ?thesis
  proof (cases "ncols ?db = expected_time_frames")
    case True
    then have "resize_to_target zoom ?db expected_time_frames = Inr ?db"
      by (simp add: resize_to_target_def Let_def)
    with res have "m' = ?db" by simp
    then show ?thesis using spec True by (simp add: resized_mel_db_def Let_def)
  next
    case False
    then show ?thesis using spec res by (simp add: resized_mel_db_def Let_def)
  qed
qed

lemma extract_features_eq:
  "resized_mel_db spectrogram zoom y sr = Inr m' \<Longrightarrow>
   extract_features spectrogram zoom y sr
     = Inr [normalize_features m', normalize_features m', normalize_features m']"
  by (simp add: extract_features_def numeral_3_eq_3)

text \<open>The stand-in spectrogram on a signal of one sample at 22050 Hz.\<close>

lemma stub_spectrogram_one_sample:
  "stub_spectrogram frames (preprocess_audio [v] 22050) 22050 n_fft (n_fft - hop_length)
     = Inr [replicate frames v]"
  by (simp add: stub_spectrogram_def preprocess_audio_def Let_def)

lemma length_preprocess_audio: "length (preprocess_audio y sr) = 3 * sr"
  by (simp add: preprocess_audio_def Let_def)

lemma checked_spectrogram_low_rate:
  assumes "sr \<le> 256"
  shows "checked_spectrogram stft (preprocess_audio y sr) sr n_fft (n_fft - hop_length)
           = Inl ValueError"
  using assms
  by (simp add: checked_spectrogram_def Let_def length_preprocess_audio n_fft_def
      hop_length_def)

lemma checked_spectrogram_returns:
  assumes "256 < sr"
  shows "checked_spectrogram stft (preprocess_audio y sr) sr n_fft (n_fft - hop_length)
           = Inr (stft (preprocess_audio y sr) sr (min n_fft (3 * sr)) (n_fft - hop_length))"
  using assms
  by (auto simp: checked_spectrogram_def Let_def length_preprocess_audio n_fft_def
      hop_length_def min_def)

lemma extract_features_spectrogram_error:
  "spectrogram (preprocess_audio y sr) sr n_fft (n_fft - hop_length) = Inl e \<Longrightarrow>
   extract_features spectrogram zoom y sr = Inl (FeatureExtractionFailed e)"
  by (simp add: extract_features_def resized_mel_db_def Let_def)

text \<open>
  Claim C5, as stated, fails. A signal of ten samples at 100 Hz lasts 0.1 seconds; it is
  padded to 300 samples, the segment length 1024 is cut to 300, the overlap 768 is not
  below it, the spectrogram call raises, and \<open>extract_features\<close> raises the
  feature-extraction failure instead of returning a tensor.
\<close>

theorem low_sample_rate_raises:
  "extract_features (checked_spectrogram stub_stft) stub_zoom (replicate 10 (Fin 0)) 100
     = Inl (FeatureExtractionFailed ValueError)"
  by (rule extract_features_spectrogram_error) (simp add: checked_spectrogram_low_rate)

text \<open>
  Claim C5, amended. Whenever the spectrogram call on the padded or truncated signal
  returns an array with at least one time frame, and, when that array does not already
  have 259 frames, the interpolation call returns an array of 64 rows with at least one
  column, \<open>extract_features\<close> returns three copies of one array, the normalised form of
  the resized log-mel array, and this array has 64 rows and 259 columns, whatever the
  length of the signal. With the argument checks of the spectrogram call, the call
  returns for every sample rate above 256 Hz, and for every sample rate of at most 256 Hz
  it raises and \<open>extract_features\<close> raises the feature-extraction failure. The cast to
  32-bit values is not part of the statement.
\<close>

theorem extract_features_shape:
  "(spectrogram (preprocess_audio y sr) sr n_fft (n_fft - hop_length) = Inr Sxx
      \<and> 0 < ncols Sxx
      \<and> (ncols Sxx \<noteq> expected_time_frames \<longrightarrow>
           (\<exists>z zc. zoom (to_db (linear_to_mel Sxx sr n_mels))
                        (1, real expected_time_frames / real (ncols Sxx)) = Inr z
                   \<and> has_shape z n_mels zc \<and> 0 < zc))
    \<longrightarrow> (\<exists>mel_db. resized_mel_db spectrogram zoom y sr = Inr mel_db
            \<and> extract_features spectrogram zoom y sr
                = Inr [normalize_features mel_db, normalize_features mel_db,
                       normalize_features mel_db]
            \<and> has_shape (normalize_features mel_db) 64 259))
   \<and> (256 < sr \<longrightarrow>
        checked_spectrogram stft (preprocess_audio y sr) sr n_fft (n_fft - hop_length)
          = Inr (stft (preprocess_audio y sr) sr (min n_fft (3 * sr)) (n_fft - hop_length)))
   \<and> (sr \<le> 256 \<longrightarrow>
        extract_features (checked_spectrogram stft) zoom y sr
          = Inl (FeatureExtractionFailed ValueError))"
proof (intro conjI impI)
  assume h: "spectrogram (preprocess_audio y sr) sr n_fft (n_fft - hop_length) = Inr Sxx
      \<and> 0 < ncols Sxx
      \<and> (ncols Sxx \<noteq> expected_time_frames \<longrightarrow>
           (\<exists>z zc. zoom (to_db (linear_to_mel Sxx sr n_mels))
                        (1, real expected_time_frames / real (ncols Sxx)) = Inr z
                   \<and> has_shape z n_mels zc \<and> 0 < zc))"
  let ?db = "to_db (linear_to_mel Sxx sr n_mels)"
  from h have spec: "spectrogram (preprocess_audio y sr) sr n_fft (n_fft - hop_length) = Inr Sxx"
    and frames: "0 < ncols Sxx"
    and zoom: "ncols Sxx \<noteq> expected_time_frames \<longrightarrow>
           (\<exists>z zc. zoom ?db (1, real expected_time_frames / real (ncols Sxx)) = Inr z
                   \<and> has_shape z n_mels zc \<and> 0 < zc)"
    by simp_all
  have sh: "has_shape ?db n_mels (ncols Sxx)" by (rule mel_db_shape)
  have pos: "0 < n_mels" by (simp add: n_mels_def)
  have "\<exists>m'. resize_to_target zoom ?db expected_time_frames = Inr m'
             \<and> has_shape m' n_mels expected_time_frames"
    using sh pos frames zoom by (rule resize_to_target_shape)
  then obtain m' where m': "resize_to_target zoom ?db expected_time_frames = Inr m'"
     "has_shape m' n_mels expected_time_frames" by blast
  have r: "resized_mel_db spectrogram zoom y sr = Inr m'"
    using spec m'(1) by (rule resized_mel_db_eq)
  then have e: "extract_features spectrogram zoom y sr
      = Inr [normalize_features m', normalize_features m', normalize_features m']"
    by (rule extract_features_eq)
  have "has_shape (normalize_features m') 64 259"
    using normalize_shape[OF m'(2)] by (simp add: n_mels_def expected_time_frames_def)
  with r e show "\<exists>mel_db. resized_mel_db spectrogram zoom y sr = Inr mel_db
            \<and> extract_features spectrogram zoom y sr
                = Inr [normalize_features mel_db, normalize_features mel_db,
                       normalize_features mel_db]
            \<and> has_shape (normalize_features mel_db) 64 259"
    by blast
next
  assume "256 < sr"
  then show "checked_spectrogram stft (preprocess_audio y sr) sr n_fft (n_fft - hop_length)
          = Inr (stft (preprocess_audio y sr) sr (min n_fft (3 * sr)) (n_fft - hop_length))"
    by (rule checked_spectrogram_returns)
next
  assume "sr \<le> 256"
  then have "checked_spectrogram stft (preprocess_audio y sr) sr n_fft (n_fft - hop_length)
           = Inl ValueError"
    by (rule checked_spectrogram_low_rate)
  then show "extract_features (checked_spectrogram stft) zoom y sr
          = Inl (FeatureExtractionFailed ValueError)"
    by (rule extract_features_spectrogram_error)
qed

theorem extract_features_shape_witness:
  "checked_spectrogram stub_stft (preprocess_audio [Fin 1] 22050) 22050 n_fft (n_fft - hop_length)
     = Inr [replicate 255 (Fin 0)]
   \<and> 0 < ncols [replicate 255 (Fin 0)]
   \<and> ncols [replicate 255 (Fin 0)] \<noteq> expected_time_frames
   \<and> (256::nat) < 22050
   \<and> (\<exists>mel_db. resized_mel_db (checked_spectrogram stub_stft) stub_zoom [Fin 1] 22050 = Inr mel_db
         \<and> extract_features (checked_spectrogram stub_stft) stub_zoom [Fin 1] 22050
             = Inr [normalize_features mel_db, normalize_features mel_db,
                    normalize_features mel_db]
         \<and> has_shape (normalize_features mel_db) 64 259)
   \<and> (100::nat) \<le> 256
   \<and> extract_features (checked_spectrogram stub_stft) stub_zoom (replicate 10 (Fin 0)) 100
       = Inl (FeatureExtractionFailed ValueError)"
proof -
  let ?S = "[replicate 255 (Fin 0)]"
  have hi: "(256::nat) < 22050" by simp
  have lo: "(100::nat) \<le> 256" by simp
  have a: "checked_spectrogram stub_stft (preprocess_audio [Fin 1] 22050) 22050 n_fft
             (n_fft - hop_length) = Inr ?S"
    using checked_spectrogram_returns[OF hi, of stub_stft "[Fin 1]"]
    by (simp add: stub_stft_def)
  have b: "0 < ncols ?S" by simp
  have c: "ncols ?S \<noteq> expected_time_frames"
    by (simp add: expected_time_frames_def)
  have d: "ncols ?S \<noteq> expected_time_frames \<longrightarrow>
         (\<exists>z zc. stub_zoom (to_db (linear_to_mel ?S 22050 n_mels))
                      (1, real expected_time_frames / real (ncols ?S)) = Inr z
                 \<and> has_shape z n_mels zc \<and> 0 < zc)"
  proof
    have "has_shape (to_db (linear_to_mel ?S 22050 n_mels)) n_mels (ncols ?S)"
      by (rule mel_db_shape)
    then show "\<exists>z zc. stub_zoom (to_db (linear_to_mel ?S 22050 n_mels))
                      (1, real expected_time_frames / real (ncols ?S)) = Inr z
                 \<and> has_shape z n_mels zc \<and> 0 < zc"
      using b unfolding stub_zoom_def by blast
  qed
  note t1 = extract_features_shape[where spectrogram = "checked_spectrogram stub_stft"
      and zoom = stub_zoom and y = "[Fin 1]" and sr = 22050 and Sxx = ?S and stft = stub_stft]
  note t2 = extract_features_shape[where spectrogram = "checked_spectrogram stub_stft"
      and zoom = stub_zoom and y = "replicate 10 (Fin 0)" and sr = 100 and Sxx = ?S
      and stft = stub_stft]
  from t1 a b d have
    "\<exists>mel_db. resized_mel_db (checked_spectrogram stub_stft) stub_zoom [Fin 1] 22050 = Inr mel_db
         \<and> extract_features (checked_spectrogram stub_stft) stub_zoom [Fin 1] 22050
             = Inr [normalize_features mel_db, normalize_features mel_db,
                    normalize_features mel_db]
         \<and> has_shape (normalize_features mel_db) 64 259"
    by blast
  moreover from t2 lo have
    "extract_features (checked_spectrogram stub_stft) stub_zoom (replicate 10 (Fin 0)) 100
       = Inl (FeatureExtractionFailed ValueError)"
    by blast
  ultimately show ?thesis using a b c hi lo by blast
qed

subsection \<open>Values that are not numbers\<close>

lemma fadd_NaN_right [simp]: "fadd x NaN = NaN"
  by (cases x) simp_all

lemma fmul_NaN_right [simp]: "fmul x NaN = NaN"
  by (cases x) simp_all

lemma fdiv_NaN_left [simp]: "fdiv NaN y = NaN"
  by simp

lemma fsub_NaN_right [simp]: "fsub x NaN = NaN"
  by (simp add: fsub_def)

lemma foldl_fadd_NaN: "foldl fadd NaN xs = NaN"
  by (induction xs) simp_all

lemma foldl_fadd_mem_NaN: "NaN \<in> set xs \<Longrightarrow> foldl fadd a xs = NaN"
proof (induction xs arbitrary: a)
  case Nil
  then show ?case by simp
next
  case (Cons x xs)
  show ?case
  proof (cases "x = NaN")
    case True
    then show ?thesis by (simp add: foldl_fadd_NaN)
  next
    case False
    with Cons.prems have "NaN \<in> set xs" by simp
    then show ?thesis using Cons.IH by simp
  qed
qed

lemma fsum_NaN: "NaN \<in> set xs \<Longrightarrow> fsum xs = NaN"
  unfolding fsum_def by (rule foldl_fadd_mem_NaN)

lemma mean_NaN: "NaN \<in> set (concat m) \<Longrightarrow> mean m = NaN"
  by (simp add: mean_def fsum_NaN)

lemma normalize_all_NaN:
  assumes "NaN \<in> set (concat m)"
  shows "normalize_features m = map (map (\<lambda>v. NaN)) m"
  using mean_NaN[OF assms] by (simp add: normalize_features_def Let_def)

lemma normalize_NaN_entries:
  assumes "NaN \<in> set (concat m)"
  shows "(\<forall>r\<in>set (normalize_features m). \<forall>v\<in>set r. v = NaN) \<and> NaN \<in> set (concat (normalize_features m))"
proof -
  from assms obtain r where r: "r \<in> set m" "NaN \<in> set r" by auto
  then have "map (\<lambda>v. NaN) r \<in> set (map (map (\<lambda>v. NaN)) m)" by simp
  moreover from r(2) have "NaN \<in> set (map (\<lambda>v. NaN) r)" by (cases r) auto
  ultimately have "NaN \<in> set (concat (map (map (\<lambda>v. NaN)) m))" by (auto simp del: set_map map_map)
  then show ?thesis unfolding normalize_all_NaN[OF assms] by auto
qed

lemma matmul_NaN:
  assumes b: "b < length B" and j: "j < ncols B" and nan: "B ! b ! j = NaN"
    and i: "i < length A" and row: "length (A ! i) = length B"
  shows "matmul A B ! i ! j = NaN"
proof -
  have "matmul A B ! i ! j = fsum (map (\<lambda>(a, r). fmul a (r ! j)) (zip (A ! i) B))"
    using i j by (simp add: matmul_def)
  moreover have "NaN \<in> set (map (\<lambda>(a, r). fmul a (r ! j)) (zip (A ! i) B))"
  proof -
    let ?ps = "map (\<lambda>(a, r). fmul a (r ! j)) (zip (A ! i) B)"
    have lb: "b < length ?ps" using b row by simp
    have "?ps ! b = fmul (A ! i ! b) (B ! b ! j)" using b row by simp
    then have "?ps ! b = NaN" using nan by simp
    with nth_mem[OF lb] show ?thesis by simp
  qed
  ultimately show ?thesis by (simp add: fsum_NaN)
qed

lemma mel_db_NaN:
  assumes "rect Sxx" "NaN \<in> set (concat Sxx)" "0 < k"
  shows "NaN \<in> set (concat (to_db (linear_to_mel Sxx sr k)))"
proof -
  from assms(2) obtain r where r: "r \<in> set Sxx" "NaN \<in> set r" by auto
  then obtain b where b: "b < length Sxx" "Sxx ! b = r" by (auto simp: in_set_conv_nth)
  from r(2) obtain j where j: "j < length r" "r ! j = NaN" by (auto simp: in_set_conv_nth)
  have jc: "j < ncols Sxx" using assms(1) r(1) j(1) by (simp add: rect_def)
  let ?F = "create_mel_filterbank sr k (length Sxx)"
  have lenF: "length ?F = k" by (rule length_create_mel_filterbank)
  have row0: "length (?F ! 0) = length Sxx"
    using assms(3) lenF by (intro row_create_mel_filterbank[of _ sr k]) simp
  have e: "linear_to_mel Sxx sr k ! 0 ! j = NaN"
    unfolding linear_to_mel_def
    using b(1) jc _ _ row0
  proof (rule matmul_NaN)
    show "Sxx ! b ! j = NaN" using b(2) j(2) by simp
    show "0 < length ?F" using assms(3) lenF by simp
  qed
  have l: "0 < length (linear_to_mel Sxx sr k)" using assms(3) by (simp add: length_linear_to_mel)
  then have "linear_to_mel Sxx sr k ! 0 \<in> set (linear_to_mel Sxx sr k)" by (rule nth_mem)
  then have lr: "length (linear_to_mel Sxx sr k ! 0) = ncols Sxx" by (rule row_linear_to_mel)
  have "to_db (linear_to_mel Sxx sr k) ! 0 ! j = NaN"
    using l lr jc e by (simp add: to_db_def)
  moreover have "to_db (linear_to_mel Sxx sr k) ! 0 \<in> set (to_db (linear_to_mel Sxx sr k))"
    using l by (intro nth_mem) (simp add: length_to_db)
  moreover have "j < length (to_db (linear_to_mel Sxx sr k) ! 0)"
    using l lr jc by (simp add: to_db_def)
  ultimately show ?thesis
    by (metis nth_mem set_concat UN_I)
qed

lemma concat_take_mono:
  assumes "NaN \<in> set (concat (map (take t) z))" "\<And>row. set (take t row) \<subseteq> set (f row)"
  shows "NaN \<in> set (concat (map f z))"
  using assms by auto

lemma resize_to_target_NaN:
  assumes c: "0 < ncols m"
    and nan: "ncols m = t \<longrightarrow> NaN \<in> set (concat m)"
    and z: "ncols m \<noteq> t \<longrightarrow> (\<exists>z. zoom m (1, real t / real (ncols m)) = Inr z
                \<and> NaN \<in> set (concat (map (take t) z)))"
  shows "\<exists>m'. resize_to_target zoom m t = Inr m' \<and> NaN \<in> set (concat m')"
proof (cases "ncols m = t")
  case True
  with nan show ?thesis by (simp add: resize_to_target_def Let_def)
next
  case False
  with z obtain z where zz: "zoom m (1, real t / real (ncols m)) = Inr z"
     "NaN \<in> set (concat (map (take t) z))" by blast
  have sub: "\<And>row. set (take t row) \<subseteq> set row" by (rule set_take_subset)
  have a: "NaN \<in> set (concat (map (\<lambda>row. row @ concat (replicate p (drop (length row - 1) row))) z))" for p
    using zz(2) by (rule concat_take_mono) (auto dest: in_set_takeD)
  have b: "NaN \<in> set (concat z)"
    using zz(2) by (auto dest: in_set_takeD)
  consider "ncols z > t" | "ncols z < t" | "ncols z = t" by arith
  then show ?thesis
  proof cases
    case 1
    then have "resize_to_target zoom m t = Inr (map (take t) z)"
      using False c zz(1) by (simp add: resize_to_target_def Let_def)
    with zz(2) show ?thesis by blast
  next
    case 2
    then have "resize_to_target zoom m t =
        Inr (map (\<lambda>row. row @ concat (replicate (t - ncols z) (drop (length row - 1) row))) z)"
      using False c zz(1) by (simp add: resize_to_target_def Let_def)
    with a show ?thesis by blast
  next
    case 3
    then have "resize_to_target zoom m t = Inr z"
      using False c zz(1) by (simp add: resize_to_target_def Let_def)
    with b show ?thesis by blast
  qed
qed

lemma const_map_shape:
  "has_shape m rows cols \<Longrightarrow> map (map (\<lambda>v. x)) m = replicate rows (replicate cols x)"
proof -
  assume h: "has_shape m rows cols"
  have "map (map (\<lambda>v. x)) m = map (\<lambda>r. replicate cols x) m"
  proof (rule map_cong[OF refl])
    fix r assume "r \<in> set m"
    with h have "length r = cols" by (simp add: has_shape_def)
    then show "map (\<lambda>v. x) r = replicate cols x" by (simp add: map_replicate_const)
  qed
  also have "\<dots> = replicate (length m) (replicate cols x)" by (rule map_replicate_const)
  finally show ?thesis using h by (simp add: has_shape_def)
qed

text \<open>
  Claim C6, as stated, fails. A signal whose first sample is NaN, with a spectrogram that
  carries this sample into its 259 frames: \<open>extract_features\<close> raises nothing and returns
  a tensor of shape (3, 64, 259) in which every entry is NaN.
\<close>

theorem nan_signal_returns_nan_tensor:
  "extract_features (stub_spectrogram 259) stub_zoom [NaN] 22050
     = Inr (replicate 3 (replicate 64 (replicate 259 NaN)))"
proof -
  let ?db = "to_db (linear_to_mel [replicate 259 NaN] 22050 n_mels)"
  have sh: "has_shape ?db n_mels 259"
    using mel_db_shape[of "[replicate 259 NaN]" 22050 n_mels] by simp
  have nan: "NaN \<in> set (concat ?db)"
    by (rule mel_db_NaN) (simp_all add: rect_def n_mels_def)
  have nc: "ncols ?db = 259"
    using sh by (rule has_shape_ncols) (simp add: n_mels_def)
  have "resize_to_target stub_zoom ?db expected_time_frames = Inr ?db"
    using nc by (simp add: resize_to_target_def Let_def expected_time_frames_def)
  with stub_spectrogram_one_sample[of 259 NaN]
  have "resized_mel_db (stub_spectrogram 259) stub_zoom [NaN] 22050 = Inr ?db"
    by (rule resized_mel_db_eq)
  then have "extract_features (stub_spectrogram 259) stub_zoom [NaN] 22050
      = Inr (replicate 3 (normalize_features ?db))"
    by (simp add: extract_features_def)
  also have "normalize_features ?db = map (map (\<lambda>v. NaN)) ?db"
    using nan by (rule normalize_all_NaN)
  also have "\<dots> = replicate 64 (replicate 259 NaN)"
    using const_map_shape[OF sh] by (simp add: n_mels_def)
  finally show ?thesis .
qed

text \<open>
  Claim C6, amended. \<open>extract_features\<close> does not test its arrays for finite values.
  When the spectrogram call returns an array that contains NaN, and the interpolation,
  where it is called, returns an array with a NaN among its first 259 columns, then
  \<open>extract_features\<close> raises nothing: it returns a tensor, three copies of one array,
  and every entry of that array is NaN.
\<close>

theorem nan_propagates_without_error:
  assumes spec: "spectrogram (preprocess_audio y sr) sr n_fft (n_fft - hop_length) = Inr Sxx"
    and rect: "rect Sxx"
    and nan: "NaN \<in> set (concat Sxx)"
    and zoom: "ncols Sxx \<noteq> expected_time_frames \<longrightarrow>
         (\<exists>z. zoom (to_db (linear_to_mel Sxx sr n_mels))
                      (1, real expected_time_frames / real (ncols Sxx)) = Inr z
               \<and> NaN \<in> set (concat (map (take expected_time_frames) z)))"
  shows "\<exists>m. extract_features spectrogram zoom y sr = Inr [m, m, m]
             \<and> NaN \<in> set (concat m) \<and> (\<forall>r\<in>set m. \<forall>v\<in>set r. v = NaN)"
proof -
  let ?db = "to_db (linear_to_mel Sxx sr n_mels)"
  have pos: "0 < n_mels" by (simp add: n_mels_def)
  have nc: "ncols ?db = ncols Sxx" using mel_db_shape pos by (rule has_shape_ncols)
  have dbnan: "NaN \<in> set (concat ?db)" using rect nan pos by (rule mel_db_NaN)
  from nan obtain r where r: "r \<in> set Sxx" "NaN \<in> set r" by auto
  then have "0 < length r" by (cases r) auto
  with rect r(1) have frames: "0 < ncols Sxx" by (simp add: rect_def)
  have "\<exists>m'. resize_to_target zoom ?db expected_time_frames = Inr m' \<and> NaN \<in> set (concat m')"
    using frames dbnan zoom by (intro resize_to_target_NaN) (simp_all add: nc)
  then obtain m' where m': "resize_to_target zoom ?db expected_time_frames = Inr m'"
    "NaN \<in> set (concat m')" by blast
  have "resized_mel_db spectrogram zoom y sr = Inr m'"
    using spec m'(1) by (rule resized_mel_db_eq)
  then have "extract_features spectrogram zoom y sr
      = Inr [normalize_features m', normalize_features m', normalize_features m']"
    by (rule extract_features_eq)
  with normalize_NaN_entries[OF m'(2)] show ?thesis by blast
qed

theorem nan_propagates_without_error_witness:
  "stub_spectrogram 255 (preprocess_audio [NaN] 22050) 22050 n_fft (n_fft - hop_length)
     = Inr [replicate 255 NaN]
   \<and> rect [replicate 255 NaN]
   \<and> NaN \<in> set (concat [replicate 255 NaN])
   \<and> ncols [replicate 255 NaN] \<noteq> expected_time_frames
   \<and> (\<exists>m. extract_features (stub_spectrogram 255) stub_zoom [NaN] 22050 = Inr [m, m, m]
             \<and> NaN \<in> set (concat m) \<and> (\<forall>r\<in>set m. \<forall>v\<in>set r. v = NaN))"
proof -
  let ?S = "[replicate 255 NaN]"
  let ?db = "to_db (linear_to_mel ?S 22050 n_mels)"
  have a: "stub_spectrogram 255 (preprocess_audio [NaN] 22050) 22050 n_fft (n_fft - hop_length)
     = Inr ?S"
    by (rule stub_spectrogram_one_sample)
  have b: "rect ?S" by (simp add: rect_def)
  have c: "NaN \<in> set (concat ?S)" by simp
  have e: "ncols ?S \<noteq> expected_time_frames" by (simp add: expected_time_frames_def)
  have sh: "has_shape ?db n_mels 255"
    using mel_db_shape[of ?S 22050 n_mels] by simp
  have dbnan: "NaN \<in> set (concat ?db)"
    using b c by (rule mel_db_NaN) (simp add: n_mels_def)
  have "map (take expected_time_frames) ?db = ?db"
  proof (rule map_idI)
    fix r assume "r \<in> set ?db"
    with sh have "length r = 255" by (simp add: has_shape_def)
    then show "take expected_time_frames r = r" by (simp add: expected_time_frames_def)
  qed
  with dbnan have "NaN \<in> set (concat (map (take expected_time_frames) ?db))" by simp
  then have d: "ncols ?S \<noteq> expected_time_frames \<longrightarrow>
         (\<exists>z. stub_zoom ?db (1, real expected_time_frames / real (ncols ?S)) = Inr z
               \<and> NaN \<in> set (concat (map (take expected_time_frames) z)))"
    unfolding stub_zoom_def by blast
  from nan_propagates_without_error[where spectrogram = "stub_spectrogram 255"
      and zoom = stub_zoom, OF a b c d] a b c e
  show ?thesis by blast
qed


end
